theory Spec2Isabelle
  imports Main
begin

section \<open>The remote client as the code sees it\<close>

text \<open>
  The program (\<^verbatim>\<open>main.go\<close>) talks to a Git hosting service through the go-github
  client. The client is not part of the repository, so it is a parameter of the model:
  a record of operations over an arbitrary world \<open>'w\<close>, each returning what the Go
  call returns and the next world. Responses may therefore depend on everything that
  happened before, which covers other actors moving the branch between two calls.

  Go pointers that the code tests against \<^verbatim>\<open>nil\<close>, or copies without looking at
  them, are options. An \<^verbatim>\<open>error\<close> is either a \<^verbatim>\<open>*github.ErrorResponse\<close>, which
  carries the HTTP response, or anything else (a transport failure, a decoding failure).
\<close>

record response =
  StatusCode :: int

datatype go_error = ErrorResponse response | OtherError

record git_object =
  object_SHA :: "string option"

record reference =
  Ref :: "string option"
  Object :: "git_object option"

record blob =
  Content :: "string option"
  Encoding :: "string option"
  blob_SHA :: "string option"

record tree_entry =
  Path :: "string option"
  Mode :: "string option"
  Type :: "string option"
  entry_SHA :: "string option"

record tree =
  tree_SHA :: "string option"
  Entries :: "tree_entry list"

datatype commit =
  Commit (commit_SHA: "string option") (Message: "string option") (commit_Tree: "tree option")
    (Parents: "commit list") (HTMLURL: "string option")

record repository_commit =
  rc_Commit :: "commit option"

text \<open>
  \<^verbatim>\<open>RepositoryContent.GetContent()\<close> decodes the body the service sent and may fail; the
  decoder belongs to the client library, so a content object carries its decoding.
\<close>

record repository_content =
  GetContent :: "go_error + string"

record repository =
  Name :: "string option"
  Private :: "bool option"
  AutoInit :: "bool option"
  Description :: "string option"
  repo_HTMLURL :: "string option"

text \<open>The nil-safe getters of go-github: a nil receiver or a nil field reads as \<open>''''\<close>.\<close>

definition object_GetSHA :: "git_object option \<Rightarrow> string" where
  "object_GetSHA obj = (case obj of None \<Rightarrow> '''' | Some g \<Rightarrow> (case object_SHA g of None \<Rightarrow> '''' | Some h \<Rightarrow> h))"

definition tree_GetSHA :: "tree option \<Rightarrow> string" where
  "tree_GetSHA t = (case t of None \<Rightarrow> '''' | Some g \<Rightarrow> (case tree_SHA g of None \<Rightarrow> '''' | Some h \<Rightarrow> h))"

record 'w client =
  Git_GetRef :: "string \<Rightarrow> string \<Rightarrow> string \<Rightarrow> 'w \<Rightarrow> (go_error + reference) \<times> 'w"
  Repositories_GetCommit :: "string \<Rightarrow> string \<Rightarrow> string \<Rightarrow> 'w
      \<Rightarrow> (repository_commit option \<times> response option \<times> go_error option) \<times> 'w"
  Repositories_GetContents :: "string \<Rightarrow> string \<Rightarrow> string \<Rightarrow> string \<Rightarrow> 'w
      \<Rightarrow> (repository_content option \<times> response option \<times> go_error option) \<times> 'w"
  Git_CreateBlob :: "string \<Rightarrow> string \<Rightarrow> blob \<Rightarrow> 'w \<Rightarrow> (go_error + blob) \<times> 'w"
  Git_CreateTree :: "string \<Rightarrow> string \<Rightarrow> string \<Rightarrow> tree_entry list \<Rightarrow> 'w \<Rightarrow> (go_error + tree) \<times> 'w"
  Git_CreateCommit :: "string \<Rightarrow> string \<Rightarrow> commit \<Rightarrow> 'w \<Rightarrow> (go_error + commit) \<times> 'w"
  Git_CreateRef :: "string \<Rightarrow> string \<Rightarrow> reference \<Rightarrow> 'w \<Rightarrow> go_error option \<times> 'w"
  Git_UpdateRef :: "string \<Rightarrow> string \<Rightarrow> reference \<Rightarrow> bool \<Rightarrow> 'w \<Rightarrow> go_error option \<times> 'w"
  Repositories_Get :: "string \<Rightarrow> string \<Rightarrow> 'w \<Rightarrow> (response option \<times> go_error option) \<times> 'w"
  Repositories_Create :: "string \<Rightarrow> repository \<Rightarrow> 'w \<Rightarrow> (go_error + repository) \<times> 'w"

text \<open>
  Every call the program makes is recorded with its arguments, in order, next to the
  world: claims about which requests are issued are claims about this list.
\<close>

datatype call =
    Call_GetRef string string string
  | Call_GetCommit string string string
  | Call_GetContents string string string string
  | Call_CreateBlob string string blob
  | Call_CreateTree string string string "tree_entry list"
  | Call_CreateCommit string string commit
  | Call_CreateRef string string reference
  | Call_UpdateRef string string reference bool
  | Call_Repositories_Get string string
  | Call_Repositories_Create string repository

record 'w st =
  world :: 'w
  calls :: "call list"

definition invoke :: "call \<Rightarrow> ('w \<Rightarrow> 'a \<times> 'w) \<Rightarrow> 'w st \<Rightarrow> 'a \<times> 'w st" where
  "invoke c f s = (case f (world s) of (x, w) \<Rightarrow> (x, \<lparr>world = w, calls = calls s @ [c]\<rparr>))"

definition is_404 :: "response option \<Rightarrow> bool" where
  "is_404 resp = (case resp of None \<Rightarrow> False | Some r \<Rightarrow> StatusCode r = 404)"

section \<open>createRepo\<close>

datatype createRepo_error = Error_checking go_error | Error_creating go_error

text \<open>
  \<^verbatim>\<open>createRepo\<close> (main.go, lines 184-212). The guard of line 193 is
  \<^verbatim>\<open>resp != nil && resp.StatusCode != 404\<close>.
\<close>

definition createRepo :: "'w client \<Rightarrow> string \<Rightarrow> string \<Rightarrow> 'w st \<Rightarrow> createRepo_error option \<times> 'w st" where
  "createRepo cl owner repoName s0 =
     (case invoke (Call_Repositories_Get owner repoName) (Repositories_Get cl owner repoName) s0 of
        ((resp, err), s1) \<Rightarrow>
          (case err of
             None \<Rightarrow> (None, s1)
           | Some e \<Rightarrow>
               if (case resp of None \<Rightarrow> False | Some r \<Rightarrow> StatusCode r \<noteq> 404)
               then (Some (Error_checking e), s1)
               else
                 (let repo = \<lparr>Name = Some repoName, Private = Some False, AutoInit = Some True,
                               Description = Some ''Auto-created with Go script'', repo_HTMLURL = None\<rparr>
                  in case invoke (Call_Repositories_Create '''' repo) (Repositories_Create cl '''' repo) s1 of
                       (Inl e2, s2) \<Rightarrow> (Some (Error_creating e2), s2)
                     | (Inr createdRepo, s2) \<Rightarrow> (None, s2))))"

section \<open>upsertMultipleFilesSafe\<close>

text \<open>
  The \<^verbatim>\<open>files\<close> argument is a Go map; its iteration order is not fixed. It is
  modelled as the list of its key-value pairs in the order one run visits them, so a
  statement over all lists with distinct keys is a statement over all maps and all
  iteration orders. The result map is a partial function from paths to status strings.
\<close>

datatype upsert_error =
    CreateBlob_init go_error
  | CreateTree_init go_error
  | CreateCommit_init go_error
  | CreateRef_init go_error
  | GetRef_error go_error
  | GetCommit_error go_error
  | BaseCommit_nil
  | Recheck_GetRef go_error
  | SHA_mismatch
  | CreateTree_error go_error
  | BaseCommit_Commit_nil
  | CreateCommit_error go_error
  | UpdateRef_error go_error

text \<open>A call either returns the result map with an optional error, or panics on a nil pointer.\<close>

datatype upsert_return = Return "string \<rightharpoonup> string" "upsert_error option" | Panic

definition blob_of :: "string \<Rightarrow> blob" where
  "blob_of content = \<lparr>Content = Some content, Encoding = Some ''utf-8'', blob_SHA = None\<rparr>"

definition entry_of :: "string \<Rightarrow> blob \<Rightarrow> tree_entry" where
  "entry_of path b = \<lparr>Path = Some path, Mode = Some ''100644'', Type = Some ''blob'', entry_SHA = blob_SHA b\<rparr>"

text \<open>Lines 30-48: the loop of the bootstrap path, which returns at the first failed blob.\<close>

fun bootstrap_loop :: "'w client \<Rightarrow> string \<Rightarrow> string \<Rightarrow> (string \<times> string) list
    \<Rightarrow> (string \<rightharpoonup> string) \<Rightarrow> tree_entry list \<Rightarrow> 'w st
    \<Rightarrow> (go_error option \<times> (string \<rightharpoonup> string) \<times> tree_entry list) \<times> 'w st" where
  "bootstrap_loop cl owner repo [] result treeEntries s = ((None, result, treeEntries), s)"
| "bootstrap_loop cl owner repo ((path, content) # rest) result treeEntries s =
     (case invoke (Call_CreateBlob owner repo (blob_of content))
             (Git_CreateBlob cl owner repo (blob_of content)) s of
        (Inl err, s1) \<Rightarrow> ((Some err, (result(path \<mapsto> ''created''))(path \<mapsto> ''error''), treeEntries), s1)
      | (Inr b, s1) \<Rightarrow>
          bootstrap_loop cl owner repo rest (result(path \<mapsto> ''created''))
            (treeEntries @ [entry_of path b]) s1)"

text \<open>Lines 27-77: the bootstrap path, entered when the branch ref is absent.\<close>

definition bootstrap :: "'w client \<Rightarrow> string \<Rightarrow> string \<Rightarrow> string \<Rightarrow> (string \<times> string) list
    \<Rightarrow> (string \<rightharpoonup> string) \<Rightarrow> 'w st \<Rightarrow> upsert_return \<times> 'w st" where
  "bootstrap cl owner repo branch files result0 s0 =
     (case bootstrap_loop cl owner repo files result0 [] s0 of
        ((Some err, result, treeEntries), s1) \<Rightarrow> (Return result (Some (CreateBlob_init err)), s1)
      | ((None, result, treeEntries), s1) \<Rightarrow>
          (case invoke (Call_CreateTree owner repo '''' treeEntries)
                  (Git_CreateTree cl owner repo '''' treeEntries) s1 of
             (Inl err, s2) \<Rightarrow> (Return result (Some (CreateTree_init err)), s2)
           | (Inr t, s2) \<Rightarrow>
               (let commit = Commit None (Some ''Initial commit'') (Some t) [] None
                in case invoke (Call_CreateCommit owner repo commit)
                          (Git_CreateCommit cl owner repo commit) s2 of
                     (Inl err, s3) \<Rightarrow> (Return result (Some (CreateCommit_init err)), s3)
                   | (Inr newCommit, s3) \<Rightarrow>
                       (let ref = \<lparr>Ref = Some (''refs/heads/'' @ branch),
                                   Object = Some \<lparr>object_SHA = commit_SHA newCommit\<rparr>\<rparr>
                        in case invoke (Call_CreateRef owner repo ref)
                                  (Git_CreateRef cl owner repo ref) s3 of
                             (Some err, s4) \<Rightarrow> (Return result (Some (CreateRef_init err)), s4)
                           | (None, s4) \<Rightarrow> (Return result None, s4)))))"

text \<open>
  Lines 106-120: the branch taken on the answer of \<^verbatim>\<open>GetContents\<close>. The boolean says
  whether control reaches the blob creation of line 122 (\<open>False\<close> is a \<^verbatim>\<open>continue\<close>).
\<close>

definition decide :: "repository_content option \<Rightarrow> response option \<Rightarrow> go_error option
    \<Rightarrow> string \<Rightarrow> string \<Rightarrow> (string \<rightharpoonup> string) \<Rightarrow> bool \<times> (string \<rightharpoonup> string)" where
  "decide current resp err path newContent result =
     (if is_404 resp then (True, result(path \<mapsto> ''created''))
      else if err = None \<and> current \<noteq> None then
        (case GetContent (the current) of
           Inl e \<Rightarrow> (False, result)
         | Inr decoded \<Rightarrow>
             if decoded = newContent then (False, result(path \<mapsto> ''skipped''))
             else (True, result(path \<mapsto> ''updated'')))
      else if err \<noteq> None then (False, result)
      else (True, result))"

text \<open>Lines 103-135: one iteration of the loop of the update path.\<close>

definition update_file :: "'w client \<Rightarrow> string \<Rightarrow> string \<Rightarrow> string \<Rightarrow> string \<Rightarrow> string
    \<Rightarrow> (string \<rightharpoonup> string) \<Rightarrow> tree_entry list \<Rightarrow> 'w st
    \<Rightarrow> ((string \<rightharpoonup> string) \<times> tree_entry list) \<times> 'w st" where
  "update_file cl owner repo branch path newContent result0 treeEntries s0 =
     (case invoke (Call_GetContents owner repo path branch)
             (Repositories_GetContents cl owner repo path branch) s0 of
        ((current, resp, err), s1) \<Rightarrow>
          (case decide current resp err path newContent (result0(path \<mapsto> ''error'')) of
             (False, result) \<Rightarrow> ((result, treeEntries), s1)
           | (True, result) \<Rightarrow>
               (case invoke (Call_CreateBlob owner repo (blob_of newContent))
                       (Git_CreateBlob cl owner repo (blob_of newContent)) s1 of
                  (Inl err2, s2) \<Rightarrow> ((result, treeEntries), s2)
                | (Inr b, s2) \<Rightarrow> ((result, treeEntries @ [entry_of path b]), s2))))"

fun update_loop :: "'w client \<Rightarrow> string \<Rightarrow> string \<Rightarrow> string \<Rightarrow> (string \<times> string) list
    \<Rightarrow> (string \<rightharpoonup> string) \<Rightarrow> tree_entry list \<Rightarrow> 'w st
    \<Rightarrow> ((string \<rightharpoonup> string) \<times> tree_entry list) \<times> 'w st" where
  "update_loop cl owner repo branch [] result treeEntries s = ((result, treeEntries), s)"
| "update_loop cl owner repo branch ((path, newContent) # rest) result treeEntries s =
     (case update_file cl owner repo branch path newContent result treeEntries s of
        ((result1, treeEntries1), s1) \<Rightarrow> update_loop cl owner repo branch rest result1 treeEntries1 s1)"

text \<open>
  Lines 82-181: the update path. Line 91 reads \<^verbatim>\<open>resp.Status\<close> without a nil check and
  line 174 assigns through \<^verbatim>\<open>ref.Object\<close>; both panic on a nil pointer.
\<close>

definition update_path :: "'w client \<Rightarrow> string \<Rightarrow> string \<Rightarrow> string \<Rightarrow> (string \<times> string) list
    \<Rightarrow> string \<Rightarrow> reference \<Rightarrow> (string \<rightharpoonup> string) \<Rightarrow> 'w st \<Rightarrow> upsert_return \<times> 'w st" where
  "update_path cl owner repo branch files commitMessage ref result0 s0 =
     (let originalHeadSHA = object_GetSHA (Object ref)
      in case invoke (Call_GetCommit owner repo originalHeadSHA)
                (Repositories_GetCommit cl owner repo originalHeadSHA) s0 of
        ((baseCommit, resp, err), s1) \<Rightarrow>
          (case err of
             Some e \<Rightarrow>
               (case resp of
                  None \<Rightarrow> (Panic, s1)
                | Some r \<Rightarrow> (Return result0 (Some (GetCommit_error e)), s1))
           | None \<Rightarrow>
               if baseCommit = None \<or> rc_Commit (the baseCommit) = None
               then (Return result0 (Some BaseCommit_nil), s1)
               else
                 (let baseTreeSHA = tree_GetSHA (commit_Tree (the (rc_Commit (the baseCommit))))
                  in case update_loop cl owner repo branch files result0 [] s1 of
                    ((result, treeEntries), s2) \<Rightarrow>
                      if length treeEntries = 0 then (Return result None, s2)
                      else
                        (case invoke (Call_GetRef owner repo (''refs/heads/'' @ branch))
                                (Git_GetRef cl owner repo (''refs/heads/'' @ branch)) s2 of
                           (Inl e, s3) \<Rightarrow> (Return result (Some (Recheck_GetRef e)), s3)
                         | (Inr refCheck, s3) \<Rightarrow>
                             if object_GetSHA (Object refCheck) \<noteq> originalHeadSHA
                             then (Return result (Some SHA_mismatch), s3)
                             else
                               (case invoke (Call_CreateTree owner repo baseTreeSHA treeEntries)
                                       (Git_CreateTree cl owner repo baseTreeSHA treeEntries) s3 of
                                  (Inl e, s4) \<Rightarrow> (Return result (Some (CreateTree_error e)), s4)
                                | (Inr newTree, s4) \<Rightarrow>
                                    if rc_Commit (the baseCommit) = None
                                    then (Return result (Some BaseCommit_Commit_nil), s4)
                                    else
                                      (let newCommit = Commit None (Some commitMessage) (Some newTree)
                                             [Commit (Some originalHeadSHA) None None [] None] None
                                       in case invoke (Call_CreateCommit owner repo newCommit)
                                                 (Git_CreateCommit cl owner repo newCommit) s4 of
                                            (Inl e, s5) \<Rightarrow> (Return result (Some (CreateCommit_error e)), s5)
                                          | (Inr commit, s5) \<Rightarrow>
                                              (case Object ref of
                                                 None \<Rightarrow> (Panic, s5)
                                               | Some obj \<Rightarrow>
                                                   (let ref2 = ref\<lparr>Object := Some (obj\<lparr>object_SHA := commit_SHA commit\<rparr>)\<rparr>
                                                    in case invoke (Call_UpdateRef owner repo ref2 False)
                                                              (Git_UpdateRef cl owner repo ref2 False) s5 of
                                                         (Some e, s6) \<Rightarrow> (Return result (Some (UpdateRef_error e)), s6)
                                                       | (None, s6) \<Rightarrow> (Return result None, s6)))))))))"

text \<open>Lines 15-182. The test of line 26 sends a 404 or 409 answer to the bootstrap path.\<close>

definition branch_absent :: "go_error \<Rightarrow> bool" where
  "branch_absent err = (case err of
       ErrorResponse r \<Rightarrow> StatusCode r = 404 \<or> StatusCode r = 409
     | OtherError \<Rightarrow> False)"

definition upsertMultipleFilesSafe :: "'w client \<Rightarrow> string \<Rightarrow> string \<Rightarrow> string
    \<Rightarrow> (string \<times> string) list \<Rightarrow> string \<Rightarrow> 'w st \<Rightarrow> upsert_return \<times> 'w st" where
  "upsertMultipleFilesSafe cl owner repo branch files commitMessage s0 =
     (case invoke (Call_GetRef owner repo (''refs/heads/'' @ branch))
             (Git_GetRef cl owner repo (''refs/heads/'' @ branch)) s0 of
        (Inl err, s1) \<Rightarrow>
          if branch_absent err then bootstrap cl owner repo branch files Map.empty s1
          else (Return Map.empty (Some (GetRef_error err)), s1)
      | (Inr ref, s1) \<Rightarrow> update_path cl owner repo branch files commitMessage ref Map.empty s1)"

section \<open>Scripted clients for concrete runs\<close>

text \<open>
  Concrete clients over a counter world. \<open>base_client\<close> answers every request with
  success: the branch exists at head \<open>''h0''\<close>, no file is present yet, and every write
  is accepted. The others differ from it in one answer. The counter is the number of
  \<^verbatim>\<open>GetRef\<close> requests answered so far.
\<close>

definition ok :: response where
  "ok = \<lparr>StatusCode = 200\<rparr>"

definition not_found :: response where
  "not_found = \<lparr>StatusCode = 404\<rparr>"

definition server_error :: response where
  "server_error = \<lparr>StatusCode = 500\<rparr>"

definition ref_at :: "string \<Rightarrow> reference" where
  "ref_at h = \<lparr>Ref = Some ''refs/heads/main'', Object = Some \<lparr>object_SHA = Some h\<rparr>\<rparr>"

definition base_commit :: repository_commit where
  "base_commit = \<lparr>rc_Commit = Some (Commit (Some ''h0'') (Some ''base'')
       (Some \<lparr>tree_SHA = Some ''t0'', Entries = []\<rparr>) [] None)\<rparr>"

definition file_with :: "string \<Rightarrow> repository_content" where
  "file_with content = \<lparr>GetContent = Inr content\<rparr>"

definition base_client :: "nat client" where
  "base_client =
     \<lparr>Git_GetRef = (\<lambda>owner repo r n. (Inr (ref_at ''h0''), Suc n)),
      Repositories_GetCommit = (\<lambda>owner repo h n. ((Some base_commit, Some ok, None), n)),
      Repositories_GetContents = (\<lambda>owner repo path r n. ((None, Some not_found, Some (ErrorResponse not_found)), n)),
      Git_CreateBlob = (\<lambda>owner repo b n. (Inr (b\<lparr>blob_SHA := Some ''b1''\<rparr>), n)),
      Git_CreateTree = (\<lambda>owner repo base entries n. (Inr \<lparr>tree_SHA = Some ''t1'', Entries = entries\<rparr>, n)),
      Git_CreateCommit = (\<lambda>owner repo c n.
         (Inr (Commit (Some ''c1'') (Message c) (commit_Tree c) (Parents c) (Some ''https://example.org/c1'')), n)),
      Git_CreateRef = (\<lambda>owner repo r n. (None, n)),
      Git_UpdateRef = (\<lambda>owner repo r force n. (None, n)),
      Repositories_Get = (\<lambda>owner name n. ((Some ok, None), n)),
      Repositories_Create = (\<lambda>org r n. (Inr (r\<lparr>repo_HTMLURL := Some ''https://example.org/r''\<rparr>), n))\<rparr>"

text \<open>The branch ref cannot be resolved: 404 (absent) or 500 (the service is down).\<close>

definition empty_repo_client :: "nat client" where
  "empty_repo_client = base_client\<lparr>Git_GetRef := (\<lambda>owner repo r n. (Inl (ErrorResponse not_found), Suc n))\<rparr>"

definition down_client :: "nat client" where
  "down_client = base_client\<lparr>Git_GetRef := (\<lambda>owner repo r n. (Inl (ErrorResponse server_error), Suc n))\<rparr>"

text \<open>Blob creation is refused, on an existing branch and on an absent one.\<close>

definition blob_refused_client :: "nat client" where
  "blob_refused_client = base_client\<lparr>Git_CreateBlob := (\<lambda>owner repo b n. (Inl (ErrorResponse server_error), n))\<rparr>"

definition second_blob_refused_client :: "nat client" where
  "second_blob_refused_client = empty_repo_client\<lparr>Git_CreateBlob := (\<lambda>owner repo b n.
       (if Content b = Some ''two'' then Inl (ErrorResponse server_error) else Inr (b\<lparr>blob_SHA := Some ''b1''\<rparr>), n))\<rparr>"

text \<open>
  The path names a directory: \<^verbatim>\<open>GetContents\<close> answers with a nil file content, the
  listing (which the code discards), a 200 response and a nil error.
\<close>

definition directory_client :: "nat client" where
  "directory_client = base_client\<lparr>Repositories_GetContents := (\<lambda>owner repo path r n. ((None, Some ok, None), n))\<rparr>"

text \<open>Another writer moves the branch to \<open>''h1''\<close> after the first \<^verbatim>\<open>GetRef\<close>.\<close>

definition moving_client :: "nat client" where
  "moving_client = base_client\<lparr>Git_GetRef := (\<lambda>owner repo r n.
       (Inr (ref_at (if n = 0 then ''h0'' else ''h1'')), Suc n))\<rparr>"

text \<open>The file \<open>''a.txt''\<close> holds \<open>''hello''\<close> on the branch.\<close>

definition hello_client :: "nat client" where
  "hello_client = base_client\<lparr>Repositories_GetContents := (\<lambda>owner repo path r n.
       (if path = ''a.txt'' then (Some (file_with ''hello''), Some ok, None)
        else (None, Some not_found, Some (ErrorResponse not_found)), n))\<rparr>"

text \<open>The repository lookup fails: with a 404 answer, and without any answer at all.\<close>

definition no_repo_client :: "nat client" where
  "no_repo_client = base_client\<lparr>Repositories_Get := (\<lambda>owner name n. ((Some not_found, Some (ErrorResponse not_found)), n))\<rparr>"

definition unreachable_client :: "nat client" where
  "unreachable_client = base_client\<lparr>Repositories_Get := (\<lambda>owner name n. ((None, Some OtherError), n))\<rparr>"

definition fresh :: "'w \<Rightarrow> 'w st" where
  "fresh w = \<lparr>world = w, calls = []\<rparr>"

section \<open>A remote that stores what it is sent\<close>

text \<open>
  Modelled from the spec: the remote service itself is not part of the repository, only
  calls to it are. Claims about two calls in a row need a remote that keeps state, so this
  is the object store of the spec's glossary and of its section 6, for one repository and
  without faults: a blob is addressed by an identifier derived from its content, a tree
  maps paths to file contents and may be built from a base tree plus overrides, a commit
  records a message, one tree and its parents, and a ref is a named pointer to a commit.
  Trees and commits get fresh identifiers from a counter. A request that names an unknown
  object is refused with 422, a read of something absent answers 404, and a non-force ref
  update is refused unless the new commit has the current head as a parent.
\<close>

record remote =
  refs :: "string \<rightharpoonup> string"
  commits :: "string \<rightharpoonup> string \<times> string \<times> string list"
  trees :: "string \<rightharpoonup> (string \<rightharpoonup> string)"
  counter :: nat

definition unprocessable :: go_error where
  "unprocessable = ErrorResponse \<lparr>StatusCode = 422\<rparr>"

definition blob_sha :: "string \<Rightarrow> string" where
  "blob_sha content = CHR ''b'' # content"

fun blob_content :: "string \<Rightarrow> string option" where
  "blob_content [] = None"
| "blob_content (c # cs) = (if c = CHR ''b'' then Some cs else None)"

definition fresh_sha :: "char \<Rightarrow> remote \<Rightarrow> string" where
  "fresh_sha kind w = kind # replicate (counter w) (CHR ''1'')"

fun add_entries :: "(string \<rightharpoonup> string) \<Rightarrow> tree_entry list \<Rightarrow> (string \<rightharpoonup> string) option" where
  "add_entries fs [] = Some fs"
| "add_entries fs (e # es) =
     (case (Path e, entry_SHA e) of
        (Some p, Some h) \<Rightarrow>
          (case blob_content h of
             None \<Rightarrow> None
           | Some content \<Rightarrow> add_entries (fs(p \<mapsto> content)) es)
      | _ \<Rightarrow> None)"

definition store_GetRef :: "string \<Rightarrow> string \<Rightarrow> string \<Rightarrow> remote \<Rightarrow> (go_error + reference) \<times> remote" where
  "store_GetRef owner repo name w =
     (case refs w name of
        None \<Rightarrow> (Inl (ErrorResponse not_found), w)
      | Some h \<Rightarrow> (Inr \<lparr>Ref = Some name, Object = Some \<lparr>object_SHA = Some h\<rparr>\<rparr>, w))"

definition store_GetCommit :: "string \<Rightarrow> string \<Rightarrow> string \<Rightarrow> remote
    \<Rightarrow> (repository_commit option \<times> response option \<times> go_error option) \<times> remote" where
  "store_GetCommit owner repo h w =
     (case commits w h of
        None \<Rightarrow> ((None, Some not_found, Some (ErrorResponse not_found)), w)
      | Some (m, t, ps) \<Rightarrow>
          ((Some \<lparr>rc_Commit = Some (Commit (Some h) (Some m) (Some \<lparr>tree_SHA = Some t, Entries = []\<rparr>)
                     (map (\<lambda>p. Commit (Some p) None None [] None) ps) None)\<rparr>,
            Some ok, None), w))"

definition file_at :: "remote \<Rightarrow> string \<Rightarrow> string \<Rightarrow> string option" where
  "file_at w branch path =
     (case refs w (''refs/heads/'' @ branch) of
        None \<Rightarrow> None
      | Some h \<Rightarrow>
          (case commits w h of
             None \<Rightarrow> None
           | Some (m, t, ps) \<Rightarrow>
               (case trees w t of
                  None \<Rightarrow> None
                | Some fs \<Rightarrow> fs path)))"

definition store_GetContents :: "string \<Rightarrow> string \<Rightarrow> string \<Rightarrow> string \<Rightarrow> remote
    \<Rightarrow> (repository_content option \<times> response option \<times> go_error option) \<times> remote" where
  "store_GetContents owner repo path branch w =
     (case file_at w branch path of
        None \<Rightarrow> ((None, Some not_found, Some (ErrorResponse not_found)), w)
      | Some content \<Rightarrow> ((Some \<lparr>GetContent = Inr content\<rparr>, Some ok, None), w))"

definition store_CreateBlob :: "string \<Rightarrow> string \<Rightarrow> blob \<Rightarrow> remote \<Rightarrow> (go_error + blob) \<times> remote" where
  "store_CreateBlob owner repo b w =
     (case Content b of
        None \<Rightarrow> (Inl unprocessable, w)
      | Some content \<Rightarrow> (Inr (b\<lparr>blob_SHA := Some (blob_sha content)\<rparr>), w))"

definition store_CreateTree :: "string \<Rightarrow> string \<Rightarrow> string \<Rightarrow> tree_entry list \<Rightarrow> remote
    \<Rightarrow> (go_error + tree) \<times> remote" where
  "store_CreateTree owner repo base entries w =
     (case (if base = '''' then Some Map.empty else trees w base) of
        None \<Rightarrow> (Inl unprocessable, w)
      | Some fs0 \<Rightarrow>
          (case add_entries fs0 entries of
             None \<Rightarrow> (Inl unprocessable, w)
           | Some fs \<Rightarrow>
               (Inr \<lparr>tree_SHA = Some (fresh_sha (CHR ''t'') w), Entries = entries\<rparr>,
                w\<lparr>trees := (trees w)(fresh_sha (CHR ''t'') w \<mapsto> fs), counter := Suc (counter w)\<rparr>)))"

definition parent_shas :: "commit \<Rightarrow> string list" where
  "parent_shas c = map (\<lambda>p. case commit_SHA p of None \<Rightarrow> '''' | Some h \<Rightarrow> h) (Parents c)"

definition store_CreateCommit :: "string \<Rightarrow> string \<Rightarrow> commit \<Rightarrow> remote \<Rightarrow> (go_error + commit) \<times> remote" where
  "store_CreateCommit owner repo c w =
     (if trees w (tree_GetSHA (commit_Tree c)) = None \<or> list_ex (\<lambda>p. commits w p = None) (parent_shas c)
      then (Inl unprocessable, w)
      else
        (Inr (Commit (Some (fresh_sha (CHR ''c'') w)) (Message c) (commit_Tree c) (Parents c) None),
         w\<lparr>commits := (commits w)(fresh_sha (CHR ''c'') w \<mapsto>
                 (case Message c of None \<Rightarrow> '''' | Some m \<Rightarrow> m, tree_GetSHA (commit_Tree c), parent_shas c)),
           counter := Suc (counter w)\<rparr>))"

definition store_CreateRef :: "string \<Rightarrow> string \<Rightarrow> reference \<Rightarrow> remote \<Rightarrow> go_error option \<times> remote" where
  "store_CreateRef owner repo r w =
     (case Ref r of
        None \<Rightarrow> (Some unprocessable, w)
      | Some name \<Rightarrow>
          if refs w name = None \<and> commits w (object_GetSHA (Object r)) \<noteq> None
          then (None, w\<lparr>refs := (refs w)(name \<mapsto> object_GetSHA (Object r))\<rparr>)
          else (Some unprocessable, w))"

definition store_UpdateRef :: "string \<Rightarrow> string \<Rightarrow> reference \<Rightarrow> bool \<Rightarrow> remote \<Rightarrow> go_error option \<times> remote" where
  "store_UpdateRef owner repo r force w =
     (case Ref r of
        None \<Rightarrow> (Some unprocessable, w)
      | Some name \<Rightarrow>
          (case (refs w name, commits w (object_GetSHA (Object r))) of
             (Some cur, Some (m, t, ps)) \<Rightarrow>
               if force \<or> cur = object_GetSHA (Object r) \<or> cur \<in> set ps
               then (None, w\<lparr>refs := (refs w)(name \<mapsto> object_GetSHA (Object r))\<rparr>)
               else (Some unprocessable, w)
           | _ \<Rightarrow> (Some unprocessable, w)))"

definition store_client :: "remote client" where
  "store_client =
     \<lparr>Git_GetRef = store_GetRef,
      Repositories_GetCommit = store_GetCommit,
      Repositories_GetContents = store_GetContents,
      Git_CreateBlob = store_CreateBlob,
      Git_CreateTree = store_CreateTree,
      Git_CreateCommit = store_CreateCommit,
      Git_CreateRef = store_CreateRef,
      Git_UpdateRef = store_UpdateRef,
      Repositories_Get = (\<lambda>owner name w. ((Some ok, None), w)),
      Repositories_Create = (\<lambda>org r w. (Inl unprocessable, w))\<rparr>"

text \<open>A branch state is well formed when its ref, if there is one, leads to a commit and a tree.\<close>

definition branch_consistent :: "remote \<Rightarrow> string \<Rightarrow> bool" where
  "branch_consistent w branch =
     (case refs w (''refs/heads/'' @ branch) of
        None \<Rightarrow> True
      | Some h \<Rightarrow>
          (case commits w h of
             None \<Rightarrow> False
           | Some (m, t, ps) \<Rightarrow> trees w t \<noteq> None \<and> t \<noteq> ''''))"

definition empty_remote :: remote where
  "empty_remote = \<lparr>refs = Map.empty, commits = Map.empty, trees = Map.empty, counter = 0\<rparr>"

text \<open>The branch exists and holds every file of the file set with the wanted content.\<close>

definition holds :: "remote \<Rightarrow> string \<Rightarrow> (string \<times> string) list \<Rightarrow> bool" where
  "holds w branch files =
     ((case refs w (''refs/heads/'' @ branch) of None \<Rightarrow> False | Some h \<Rightarrow> commits w h \<noteq> None)
      \<and> list_all (\<lambda>(p, c). file_at w branch p = Some c) files)"

text \<open>What the program sends for a file it writes, once the remote has named the blob.\<close>

definition sent_entry :: "string \<times> string \<Rightarrow> tree_entry" where
  "sent_entry f = entry_of (fst f) ((blob_of (snd f))\<lparr>blob_SHA := Some (blob_sha (snd f))\<rparr>)"

text \<open>The result map in which every path of the file set is \<open>skipped\<close>.\<close>

definition all_skipped :: "(string \<times> string) list \<Rightarrow> (string \<rightharpoonup> string)" where
  "all_skipped files = (\<lambda>p. if p \<in> fst ` set files then Some ''skipped'' else None)"

section \<open>Classifying requests and statuses\<close>

text \<open>The requests that build or publish history: tree, commit and ref writes.\<close>

definition mutates :: "call \<Rightarrow> bool" where
  "mutates c = (case c of
       Call_CreateTree a b t es \<Rightarrow> True
     | Call_CreateCommit a b k \<Rightarrow> True
     | Call_CreateRef a b r \<Rightarrow> True
     | Call_UpdateRef a b r f \<Rightarrow> True
     | _ \<Rightarrow> False)"

text \<open>The requests of the per-file loops: content reads and blob writes.\<close>

definition per_file :: "call \<Rightarrow> bool" where
  "per_file c = (case c of
       Call_GetContents a b p r \<Rightarrow> True
     | Call_CreateBlob a b k \<Rightarrow> True
     | _ \<Rightarrow> False)"

definition terminal :: "string \<Rightarrow> bool" where
  "terminal v = (v = ''created'' \<or> v = ''updated'' \<or> v = ''skipped'' \<or> v = ''error'')"

text \<open>
  The errors returned before every path has been given a status: the ref could not be
  resolved, the base commit could not be fetched, or a blob of the bootstrap path failed.
\<close>

definition early_abort :: "upsert_error option \<Rightarrow> bool" where
  "early_abort e = (case e of
       Some (CreateBlob_init x) \<Rightarrow> True
     | Some (GetRef_error x) \<Rightarrow> True
     | Some (GetCommit_error x) \<Rightarrow> True
     | Some BaseCommit_nil \<Rightarrow> True
     | _ \<Rightarrow> False)"

text \<open>Reading one path in what a call returned; a panic returns no map.\<close>

fun status_of :: "upsert_return \<Rightarrow> string \<Rightarrow> string option" where
  "status_of (Return res e) p = res p"
| "status_of Panic p = None"

text \<open>The requests that ask the remote to create a commit.\<close>

definition is_commit_request :: "call \<Rightarrow> bool" where
  "is_commit_request c = (case c of Call_CreateCommit a b k \<Rightarrow> True | _ \<Rightarrow> False)"

section \<open>Basic facts about the model\<close>

lemmas scen_defs = base_client_def empty_repo_client_def down_client_def blob_refused_client_def
  second_blob_refused_client_def directory_client_def moving_client_def hello_client_def
  no_repo_client_def unreachable_client_def fresh_def ok_def not_found_def server_error_def
  ref_at_def base_commit_def file_with_def

lemmas run_defs = upsertMultipleFilesSafe_def update_path_def bootstrap_def update_file_def decide_def
  invoke_def is_404_def branch_absent_def blob_of_def entry_of_def object_GetSHA_def tree_GetSHA_def
  Let_def

lemma invoke_calls: "invoke c f s = (x, s') \<Longrightarrow> calls s' = calls s @ [c]"
  by (auto simp: invoke_def split: prod.splits)

lemma invoke_world: "invoke c f s = (x, s') \<Longrightarrow> f (world s) = (x, world s')"
  by (auto simp: invoke_def split: prod.splits)

lemma decide_result:
  assumes "decide current resp err path newContent result = (go, result')"
  shows "result' = result \<or> (\<exists>v. terminal v \<and> result' = result(path \<mapsto> v))"
  using assms by (auto simp: decide_def terminal_def split: if_splits sum.splits)

lemma update_file_calls:
  assumes "update_file cl owner repo branch path newContent result es s = ((result', es'), s')"
  shows "\<exists>cs. calls s' = calls s @ cs \<and> list_all per_file cs"
  using assms unfolding update_file_def
  by (auto simp: per_file_def split: prod.splits bool.splits sum.splits dest!: invoke_calls)

lemma update_file_result:
  assumes "update_file cl owner repo branch path newContent result es s = ((result', es'), s')"
  shows "\<exists>v. terminal v \<and> result' = result(path \<mapsto> v)"
proof -
  from assms obtain current resp err go where
    d: "decide current resp err path newContent (result(path \<mapsto> ''error'')) = (go, result')"
    unfolding update_file_def by (auto split: prod.splits bool.splits sum.splits)
  from decide_result [OF d] show ?thesis
    by (auto simp: terminal_def)
qed

lemma update_loop_calls:
  "update_loop cl owner repo branch files result es s = ((result', es'), s')
   \<Longrightarrow> \<exists>cs. calls s' = calls s @ cs \<and> list_all per_file cs"
proof (induction files arbitrary: result es s)
  case Nil
  then show ?case by auto
next
  case (Cons f files)
  obtain path newContent where f: "f = (path, newContent)" by (cases f)
  obtain r1 e1 s1 where
    one: "update_file cl owner repo branch path newContent result es s = ((r1, e1), s1)"
    by (metis prod.exhaust)
  with Cons.prems f have rest: "update_loop cl owner repo branch files r1 e1 s1 = ((result', es'), s')"
    by simp
  from update_file_calls [OF one] Cons.IH [OF rest] show ?case
    by auto
qed

lemma update_loop_result:
  "update_loop cl owner repo branch files result es s = ((result', es'), s')
   \<Longrightarrow> (\<forall>q. q \<notin> fst ` set files \<longrightarrow> result' q = result q)
     \<and> (\<forall>q \<in> fst ` set files. \<exists>v. terminal v \<and> result' q = Some v)"
proof (induction files arbitrary: result es s)
  case Nil
  then show ?case by auto
next
  case (Cons f files)
  obtain path newContent where f: "f = (path, newContent)" by (cases f)
  obtain r1 e1 s1 where
    one: "update_file cl owner repo branch path newContent result es s = ((r1, e1), s1)"
    by (metis prod.exhaust)
  with Cons.prems f have rest: "update_loop cl owner repo branch files r1 e1 s1 = ((result', es'), s')"
    by simp
  from update_file_result [OF one] obtain v where v: "terminal v" "r1 = result(path \<mapsto> v)"
    by blast
  from Cons.IH [OF rest] v f show ?case
    by (cases "path \<in> fst ` set files") (auto simp: image_iff)
qed

lemma bootstrap_loop_calls:
  "bootstrap_loop cl owner repo files result es s = (x, s')
   \<Longrightarrow> \<exists>cs. calls s' = calls s @ cs \<and> list_all per_file cs"
proof (induction files arbitrary: result es s)
  case Nil
  then show ?case by auto
next
  case (Cons f files)
  obtain path content where f: "f = (path, content)" by (cases f)
  obtain b s1 where
    one: "invoke (Call_CreateBlob owner repo (blob_of content)) (Git_CreateBlob cl owner repo (blob_of content)) s = (b, s1)"
    by (metis prod.exhaust)
  have c1: "calls s1 = calls s @ [Call_CreateBlob owner repo (blob_of content)]"
    using invoke_calls [OF one] .
  show ?case
  proof (cases b)
    case (Inl e)
    with Cons.prems f one c1 show ?thesis by (auto simp: per_file_def)
  next
    case (Inr bl)
    with Cons.prems f one have
      "bootstrap_loop cl owner repo files (result(path \<mapsto> ''created'')) (es @ [entry_of path bl]) s1 = (x, s')"
      by simp
    from Cons.IH [OF this] c1 show ?thesis by (auto simp: per_file_def)
  qed
qed

lemma bootstrap_loop_step:
  assumes "bootstrap_loop cl owner repo ((path, content) # files) result es s = (x, s')"
  obtains (fail) err where
      "invoke (Call_CreateBlob owner repo (blob_of content)) (Git_CreateBlob cl owner repo (blob_of content)) s = (Inl err, s')"
      "x = (Some err, result(path \<mapsto> ''error''), es)"
  | (go) b s1 where
      "invoke (Call_CreateBlob owner repo (blob_of content)) (Git_CreateBlob cl owner repo (blob_of content)) s = (Inr b, s1)"
      "bootstrap_loop cl owner repo files (result(path \<mapsto> ''created'')) (es @ [entry_of path b]) s1 = (x, s')"
  using assms by (auto split: prod.splits sum.splits)

lemma bootstrap_loop_other:
  "bootstrap_loop cl owner repo files result es s = ((e, result', es'), s')
   \<Longrightarrow> q \<notin> fst ` set files \<Longrightarrow> result' q = result q"
proof (induction files arbitrary: result es s)
  case Nil
  then show ?case by simp
next
  case (Cons f files)
  obtain path content where f: "f = (path, content)" by (cases f)
  from Cons.prems(2) f have q: "q \<noteq> path" "q \<notin> fst ` set files" by auto
  from Cons.prems(1) [unfolded f] show ?case
  proof (cases rule: bootstrap_loop_step)
    case (fail err)
    with q show ?thesis by simp
  next
    case (go b s1)
    from Cons.IH [OF go(2) q(2)] q(1) show ?thesis by simp
  qed
qed

lemma bootstrap_loop_values:
  "bootstrap_loop cl owner repo files result es s = ((e, result', es'), s')
   \<Longrightarrow> result' q = Some v \<Longrightarrow> result q = Some v \<or> (q \<in> fst ` set files \<and> terminal v)"
proof (induction files arbitrary: result es s)
  case Nil
  then show ?case by simp
next
  case (Cons f files)
  obtain path content where f: "f = (path, content)" by (cases f)
  from Cons.prems(1) [unfolded f] show ?case
  proof (cases rule: bootstrap_loop_step)
    case (fail err)
    with Cons.prems(2) f show ?thesis
      by (cases "q = path") (auto simp: terminal_def)
  next
    case (go b s1)
    from Cons.IH [OF go(2) Cons.prems(2)] f show ?thesis
      by (cases "q = path") (auto simp: terminal_def)
  qed
qed

lemma bootstrap_loop_created:
  "bootstrap_loop cl owner repo files result es s = ((None, result', es'), s')
   \<Longrightarrow> q \<in> fst ` set files \<or> result q = Some ''created'' \<Longrightarrow> result' q = Some ''created''"
proof (induction files arbitrary: result es s)
  case Nil
  then show ?case by simp
next
  case (Cons f files)
  obtain path content where f: "f = (path, content)" by (cases f)
  from Cons.prems(1) [unfolded f] show ?case
  proof (cases rule: bootstrap_loop_step)
    case (fail err)
    then show ?thesis by simp
  next
    case (go b s1)
    have "q \<in> fst ` set files \<or> (result(path \<mapsto> ''created'')) q = Some ''created''"
      using Cons.prems(2) f by auto
    from Cons.IH [OF go(2) this] show ?thesis .
  qed
qed

lemma per_file_not_mutates: "list_all per_file cs \<Longrightarrow> filter mutates cs = []"
  by (induction cs) (auto simp: per_file_def mutates_def split: call.splits)

lemma per_file_no_commit: "list_all per_file cs \<Longrightarrow> Call_CreateCommit a b c \<notin> set cs"
  by (induction cs) (auto simp: per_file_def)

lemma bootstrap_result:
  assumes "bootstrap cl owner repo branch files r0 s = (Return res e, s')"
  shows "\<exists>le es s1. bootstrap_loop cl owner repo files r0 [] s = ((le, res, es), s1)
           \<and> (le = None \<longleftrightarrow> \<not> early_abort e)"
  using assms
  by (auto simp: bootstrap_def Let_def early_abort_def split: prod.splits option.splits sum.splits)

lemma update_path_result:
  assumes "update_path cl owner repo branch files commitMessage ref r0 s = (Return res e, s')"
  shows "(early_abort e \<and> res = r0)
       \<or> (\<not> early_abort e \<and> (\<exists>es s1 s2. update_loop cl owner repo branch files r0 [] s1 = ((res, es), s2)))"
  using assms
  by (auto simp: update_path_def Let_def early_abort_def split: prod.splits option.splits sum.splits if_splits)

lemma bootstrap_commit_calls:
  assumes "bootstrap cl owner repo branch files r0 s = (ret, s')"
      and "Call_CreateCommit a b c \<in> set (calls s')"
  shows "Call_CreateCommit a b c \<in> set (calls s) \<or> (Message c = Some ''Initial commit'' \<and> Parents c = [])"
proof -
  obtain le res es s1 where loop: "bootstrap_loop cl owner repo files r0 [] s = ((le, res, es), s1)"
    by (metis prod.exhaust)
  from bootstrap_loop_calls [OF loop] obtain cs where
    cs: "calls s1 = calls s @ cs" "list_all per_file cs" by blast
  have no: "Call_CreateCommit a b c \<notin> set cs"
    using per_file_no_commit [OF cs(2)] .
  from assms loop cs(1) no show ?thesis
    by (auto simp: bootstrap_def Let_def split: prod.splits option.splits sum.splits dest!: invoke_calls)
qed

lemma update_path_commit_calls:
  assumes "update_path cl owner repo branch files commitMessage ref r0 s = (ret, s')"
      and "Call_CreateCommit a b c \<in> set (calls s')"
  shows "Call_CreateCommit a b c \<in> set (calls s)
       \<or> (Message c = Some commitMessage
          \<and> Parents c = [Commit (Some (object_GetSHA (Object ref))) None None [] None])"
proof -
  obtain x s1 where gc: "invoke (Call_GetCommit owner repo (object_GetSHA (Object ref)))
                (Repositories_GetCommit cl owner repo (object_GetSHA (Object ref))) s = (x, s1)"
    by (metis prod.exhaust)
  obtain res es s2 where loop: "update_loop cl owner repo branch files r0 [] s1 = ((res, es), s2)"
    by (metis prod.exhaust)
  from update_loop_calls [OF loop] obtain cs where
    cs: "calls s2 = calls s1 @ cs" "list_all per_file cs" by blast
  have no: "Call_CreateCommit a b c \<notin> set cs"
    using per_file_no_commit [OF cs(2)] .
  have c1: "calls s1 = calls s @ [Call_GetCommit owner repo (object_GetSHA (Object ref))]"
    using invoke_calls [OF gc] .
  from assms gc loop cs(1) no c1 show ?thesis
    unfolding update_path_def Let_def
    by (auto split: prod.splits option.splits sum.splits if_splits dest!: invoke_calls)
qed

lemma bootstrap_loop_append:
  "bootstrap_loop cl owner repo pre result es s = ((None, r1, es1), s1)
   \<Longrightarrow> bootstrap_loop cl owner repo (pre @ rest) result es s = bootstrap_loop cl owner repo rest r1 es1 s1"
proof (induction pre arbitrary: result es s)
  case Nil
  then show ?case by simp
next
  case (Cons f pre)
  obtain path content where f: "f = (path, content)" by (cases f)
  from Cons.prems [unfolded f] show ?case
  proof (cases rule: bootstrap_loop_step)
    case (fail err)
    then show ?thesis by simp
  next
    case (go b s2)
    have step: "bootstrap_loop cl owner repo ((f # pre) @ rest) result es s
        = bootstrap_loop cl owner repo (pre @ rest) (result(path \<mapsto> ''created'')) (es @ [entry_of path b]) s2"
      using go(1) f by simp
    show ?thesis unfolding step using Cons.IH [OF go(2)] .
  qed
qed

section \<open>Facts about the storing remote\<close>

lemmas store_defs = store_client_def store_GetRef_def store_GetCommit_def store_GetContents_def
  store_CreateBlob_def store_CreateTree_def store_CreateCommit_def store_CreateRef_def store_UpdateRef_def

lemma store_update_file_same:
  assumes "file_at (world s) branch path = Some newContent"
  shows "update_file store_client owner repo branch path newContent result es s
           = ((result(path \<mapsto> ''skipped''), es),
              \<lparr>world = world s, calls = calls s @ [Call_GetContents owner repo path branch]\<rparr>)"
  using assms
  by (simp add: update_file_def decide_def invoke_def is_404_def ok_def store_client_def store_GetContents_def)

lemma store_update_file_differs:
  assumes "file_at (world s) branch path \<noteq> Some newContent"
  shows "\<exists>result'. update_file store_client owner repo branch path newContent result es s
           = ((result', es @ [sent_entry (path, newContent)]),
              \<lparr>world = world s, calls = calls s @ [Call_GetContents owner repo path branch,
                  Call_CreateBlob owner repo (blob_of newContent)]\<rparr>)"
proof (cases "file_at (world s) branch path")
  case None
  then show ?thesis
    by (simp add: update_file_def decide_def invoke_def is_404_def not_found_def store_client_def
          store_GetContents_def store_CreateBlob_def blob_of_def sent_entry_def)
next
  case (Some old)
  with assms have "old \<noteq> newContent" by simp
  with Some show ?thesis
    by (simp add: update_file_def decide_def invoke_def is_404_def ok_def store_client_def
          store_GetContents_def store_CreateBlob_def blob_of_def sent_entry_def)
qed

lemma store_update_loop_skips:
  "list_all (\<lambda>(p, c). file_at (world s) branch p = Some c) files
   \<Longrightarrow> update_loop store_client owner repo branch files result es s
       = ((\<lambda>q. if q \<in> fst ` set files then Some ''skipped'' else result q, es),
          \<lparr>world = world s, calls = calls s @ map (\<lambda>(p, c). Call_GetContents owner repo p branch) files\<rparr>)"
proof (induction files arbitrary: result s)
  case Nil
  then show ?case by simp
next
  case (Cons f files)
  obtain path newContent where f: "f = (path, newContent)" by (cases f)
  let ?s1 = "\<lparr>world = world s, calls = calls s @ [Call_GetContents owner repo path branch]\<rparr>"
  from Cons.prems f have here: "file_at (world s) branch path = Some newContent"
    and rest: "list_all (\<lambda>(p, c). file_at (world ?s1) branch p = Some c) files"
    by simp_all
  have "update_loop store_client owner repo branch (f # files) result es s
          = update_loop store_client owner repo branch files (result(path \<mapsto> ''skipped'')) es ?s1"
    using store_update_file_same [OF here] f by simp
  also have "\<dots> = ((\<lambda>q. if q \<in> fst ` set files then Some ''skipped'' else (result(path \<mapsto> ''skipped'')) q, es),
          \<lparr>world = world ?s1, calls = calls ?s1 @ map (\<lambda>(p, c). Call_GetContents owner repo p branch) files\<rparr>)"
    using Cons.IH [OF rest] .
  also have "\<dots> = ((\<lambda>q. if q \<in> fst ` set (f # files) then Some ''skipped'' else result q, es),
          \<lparr>world = world s, calls = calls s @ map (\<lambda>(p, c). Call_GetContents owner repo p branch) (f # files)\<rparr>)"
    using f by (auto simp: fun_eq_iff)
  finally show ?case .
qed

lemma store_update_loop:
  "\<exists>result' cs. update_loop store_client owner repo branch files result es s
       = ((result', es @ map sent_entry (filter (\<lambda>(p, c). file_at (world s) branch p \<noteq> Some c) files)),
          \<lparr>world = world s, calls = calls s @ cs\<rparr>)
       \<and> list_all per_file cs"
proof (induction files arbitrary: result es s)
  case Nil
  show ?case by (rule exI [of _ result], rule exI [of _ "[]"]) simp
next
  case (Cons f files)
  obtain path newContent where f: "f = (path, newContent)" by (cases f)
  show ?case
  proof (cases "file_at (world s) branch path = Some newContent")
    case True
    let ?s1 = "\<lparr>world = world s, calls = calls s @ [Call_GetContents owner repo path branch]\<rparr>"
    from Cons.IH [of "result(path \<mapsto> ''skipped'')" es ?s1] obtain result' cs where
      ih: "update_loop store_client owner repo branch files (result(path \<mapsto> ''skipped'')) es ?s1
            = ((result', es @ map sent_entry (filter (\<lambda>(p, c). file_at (world ?s1) branch p \<noteq> Some c) files)),
               \<lparr>world = world ?s1, calls = calls ?s1 @ cs\<rparr>)" and pf: "list_all per_file cs"
      by blast
    have "update_loop store_client owner repo branch (f # files) result es s
            = ((result', es @ map sent_entry (filter (\<lambda>(p, c). file_at (world s) branch p \<noteq> Some c) (f # files))),
               \<lparr>world = world s, calls = calls s @ (Call_GetContents owner repo path branch # cs)\<rparr>)"
      using store_update_file_same [OF True] ih f True by simp
    moreover have "list_all per_file (Call_GetContents owner repo path branch # cs)"
      using pf by (simp add: per_file_def)
    ultimately show ?thesis by blast
  next
    case False
    let ?s1 = "\<lparr>world = world s, calls = calls s @ [Call_GetContents owner repo path branch,
                  Call_CreateBlob owner repo (blob_of newContent)]\<rparr>"
    from store_update_file_differs [OF False, of owner repo result es] obtain r1 where
      one: "update_file store_client owner repo branch path newContent result es s
           = ((r1, es @ [sent_entry (path, newContent)]), ?s1)" by blast
    from Cons.IH [of r1 "es @ [sent_entry (path, newContent)]" ?s1] obtain result' cs where
      ih: "update_loop store_client owner repo branch files r1 (es @ [sent_entry (path, newContent)]) ?s1
            = ((result', (es @ [sent_entry (path, newContent)])
                    @ map sent_entry (filter (\<lambda>(p, c). file_at (world ?s1) branch p \<noteq> Some c) files)),
               \<lparr>world = world ?s1, calls = calls ?s1 @ cs\<rparr>)" and pf: "list_all per_file cs"
      by blast
    have "update_loop store_client owner repo branch (f # files) result es s
            = ((result', es @ map sent_entry (filter (\<lambda>(p, c). file_at (world s) branch p \<noteq> Some c) (f # files))),
               \<lparr>world = world s, calls = calls s @ (Call_GetContents owner repo path branch #
                  Call_CreateBlob owner repo (blob_of newContent) # cs)\<rparr>)"
      using one ih f False by simp
    moreover have "list_all per_file (Call_GetContents owner repo path branch #
                  Call_CreateBlob owner repo (blob_of newContent) # cs)"
      using pf by (simp add: per_file_def)
    ultimately show ?thesis by blast
  qed
qed

lemma store_bootstrap_loop:
  "\<exists>result' cs. bootstrap_loop store_client owner repo files result es s
       = ((None, result', es @ map sent_entry files), \<lparr>world = world s, calls = calls s @ cs\<rparr>)
       \<and> list_all per_file cs"
proof (induction files arbitrary: result es s)
  case Nil
  show ?case by (rule exI [of _ result], rule exI [of _ "[]"]) simp
next
  case (Cons f files)
  obtain path content where f: "f = (path, content)" by (cases f)
  let ?s1 = "\<lparr>world = world s, calls = calls s @ [Call_CreateBlob owner repo (blob_of content)]\<rparr>"
  from Cons.IH [of "result(path \<mapsto> ''created'')" "es @ [sent_entry (path, content)]" ?s1] obtain result' cs where
    ih: "bootstrap_loop store_client owner repo files (result(path \<mapsto> ''created'')) (es @ [sent_entry (path, content)]) ?s1
       = ((None, result', (es @ [sent_entry (path, content)]) @ map sent_entry files),
          \<lparr>world = world ?s1, calls = calls ?s1 @ cs\<rparr>)" and pf: "list_all per_file cs"
    by blast
  have one: "invoke (Call_CreateBlob owner repo (blob_of content))
             (Git_CreateBlob store_client owner repo (blob_of content)) s
           = (Inr ((blob_of content)\<lparr>blob_SHA := Some (blob_sha content)\<rparr>), ?s1)"
    by (simp add: invoke_def store_client_def store_CreateBlob_def blob_of_def)
  have "bootstrap_loop store_client owner repo (f # files) result es s
       = ((None, result', es @ map sent_entry (f # files)),
          \<lparr>world = world s, calls = calls s @ (Call_CreateBlob owner repo (blob_of content) # cs)\<rparr>)"
    using one ih f by (simp add: sent_entry_def)
  moreover have "list_all per_file (Call_CreateBlob owner repo (blob_of content) # cs)"
    using pf by (simp add: per_file_def)
  ultimately show ?case by blast
qed

lemma add_entries_sent:
  "\<exists>fs'. add_entries fs (map sent_entry xs) = Some fs'
     \<and> (\<forall>p. p \<notin> fst ` set xs \<longrightarrow> fs' p = fs p)
     \<and> (distinct (map fst xs) \<longrightarrow> (\<forall>(p, c) \<in> set xs. fs' p = Some c))"
proof (induction xs arbitrary: fs)
  case Nil
  then show ?case by simp
next
  case (Cons x xs)
  obtain p c where x: "x = (p, c)" by (cases x)
  from Cons.IH [of "fs(p \<mapsto> c)"] obtain fs' where
    a: "add_entries (fs(p \<mapsto> c)) (map sent_entry xs) = Some fs'"
    and b: "\<forall>q. q \<notin> fst ` set xs \<longrightarrow> fs' q = (fs(p \<mapsto> c)) q"
    and d: "distinct (map fst xs) \<longrightarrow> (\<forall>(q, k) \<in> set xs. fs' q = Some k)"
    by blast
  have "add_entries fs (map sent_entry (x # xs)) = Some fs'"
    using a x by (simp add: sent_entry_def entry_of_def blob_sha_def)
  moreover have "\<forall>q. q \<notin> fst ` set (x # xs) \<longrightarrow> fs' q = fs q"
    using b x by auto
  moreover have "distinct (map fst (x # xs)) \<longrightarrow> (\<forall>(q, k) \<in> set (x # xs). fs' q = Some k)"
    using b d x by auto
  ultimately show ?case by blast
qed

lemma store_second_call:
  assumes "holds w branch files"
  shows "upsertMultipleFilesSafe store_client owner repo branch files commitMessage \<lparr>world = w, calls = cs\<rparr>
           = (Return (all_skipped files) None,
              \<lparr>world = w, calls = cs @ [Call_GetRef owner repo (''refs/heads/'' @ branch),
                  Call_GetCommit owner repo (the (refs w (''refs/heads/'' @ branch)))]
                  @ map (\<lambda>(p, c). Call_GetContents owner repo p branch) files\<rparr>)"
proof -
  from assms obtain h m t ps where
    h: "refs w (''refs/heads/'' @ branch) = Some h" and c: "commits w h = Some (m, t, ps)"
    and fs: "list_all (\<lambda>(p, c). file_at w branch p = Some c) files"
    by (auto simp: holds_def split: option.splits)
  let ?s1 = "\<lparr>world = w, calls = cs @ [Call_GetRef owner repo (''refs/heads/'' @ branch)]\<rparr>"
  let ?s2 = "\<lparr>world = w, calls = cs @ [Call_GetRef owner repo (''refs/heads/'' @ branch),
                Call_GetCommit owner repo h]\<rparr>"
  let ?ref = "\<lparr>Ref = Some (''refs/heads/'' @ branch), Object = Some \<lparr>object_SHA = Some h\<rparr>\<rparr>"
  have g1: "invoke (Call_GetRef owner repo (''refs/heads/'' @ branch))
             (Git_GetRef store_client owner repo (''refs/heads/'' @ branch)) \<lparr>world = w, calls = cs\<rparr>
           = (Inr ?ref, ?s1)"
    using h by (simp add: invoke_def store_client_def store_GetRef_def)
  have sha: "object_GetSHA (Object ?ref) = h"
    by (simp add: object_GetSHA_def)
  have g2: "invoke (Call_GetCommit owner repo h) (Repositories_GetCommit store_client owner repo h) ?s1
           = ((Some \<lparr>rc_Commit = Some (Commit (Some h) (Some m) (Some \<lparr>tree_SHA = Some t, Entries = []\<rparr>)
                     (map (\<lambda>p. Commit (Some p) None None [] None) ps) None)\<rparr>, Some ok, None), ?s2)"
    using c by (simp add: invoke_def store_client_def store_GetCommit_def)
  have fs2: "list_all (\<lambda>(p, c). file_at (world ?s2) branch p = Some c) files"
    using fs by simp
  have loop: "update_loop store_client owner repo branch files Map.empty [] ?s2
       = ((all_skipped files, []),
          \<lparr>world = w, calls = calls ?s2 @ map (\<lambda>(p, c). Call_GetContents owner repo p branch) files\<rparr>)"
    using store_update_loop_skips [OF fs2, of owner repo Map.empty "[]"]
    by (simp add: all_skipped_def)
  have "update_path store_client owner repo branch files commitMessage ?ref Map.empty ?s1
          = (Return (all_skipped files) None,
             \<lparr>world = w, calls = calls ?s2 @ map (\<lambda>(p, c). Call_GetContents owner repo p branch) files\<rparr>)"
    unfolding update_path_def sha Let_def g2 using loop by simp
  then show ?thesis
    unfolding upsertMultipleFilesSafe_def g1 using h by simp
qed

lemma store_bootstrap:
  assumes absent: "refs w (''refs/heads/'' @ branch) = None"
      and dist: "distinct (map fst files)"
  shows "\<exists>res s'. bootstrap store_client owner repo branch files Map.empty \<lparr>world = w, calls = cs\<rparr>
                     = (Return res None, s')
                 \<and> holds (world s') branch files"
proof -
  define name where "name = ''refs/heads/'' @ branch"
  note file_at' = file_at_def [where branch = branch, folded name_def]
  note holds' = holds_def [where branch = branch, folded name_def]
  note bootstrap' = bootstrap_def [where branch = branch, folded name_def]
  note absent' = absent [folded name_def]
  from store_bootstrap_loop [of owner repo files Map.empty "[]" "\<lparr>world = w, calls = cs\<rparr>"]
  obtain res cs1 where
    loop: "bootstrap_loop store_client owner repo files Map.empty [] \<lparr>world = w, calls = cs\<rparr>
             = ((None, res, map sent_entry files), \<lparr>world = w, calls = cs @ cs1\<rparr>)"
    by auto
  from add_entries_sent [of Map.empty files] dist obtain fs where
    add: "add_entries Map.empty (map sent_entry files) = Some fs"
    and mem: "\<forall>(p, c) \<in> set files. fs p = Some c"
    by blast
  define t1 where "t1 = fresh_sha (CHR ''t'') w"
  define w1 where "w1 = w\<lparr>trees := (trees w)(t1 \<mapsto> fs), counter := Suc (counter w)\<rparr>"
  define c1 where "c1 = fresh_sha (CHR ''c'') w1"
  define w2 where "w2 = w1\<lparr>commits := (commits w1)(c1 \<mapsto> (''Initial commit'', t1, [])), counter := Suc (counter w1)\<rparr>"
  define w3 where "w3 = w2\<lparr>refs := (refs w2)(name \<mapsto> c1)\<rparr>"
  define tr where "tr = \<lparr>tree_SHA = Some t1, Entries = map sent_entry files\<rparr>"
  have ct: "store_CreateTree owner repo '''' (map sent_entry files) w = (Inr tr, w1)"
    using add by (simp add: store_CreateTree_def t1_def w1_def tr_def)
  have cc: "store_CreateCommit owner repo (Commit None (Some ''Initial commit'') (Some tr) [] None) w1
              = (Inr (Commit (Some c1) (Some ''Initial commit'') (Some tr) [] None), w2)"
    by (simp add: store_CreateCommit_def tree_GetSHA_def parent_shas_def tr_def w1_def w2_def c1_def)
  have cr: "store_CreateRef owner repo \<lparr>Ref = Some name, Object = Some \<lparr>object_SHA = Some c1\<rparr>\<rparr> w2
              = (None, w3)"
    using absent' by (simp add: store_CreateRef_def object_GetSHA_def w1_def w2_def w3_def)
  have run: "bootstrap store_client owner repo branch files Map.empty \<lparr>world = w, calls = cs\<rparr>
               = (Return res None,
                  \<lparr>world = w3, calls = cs @ cs1 @ [Call_CreateTree owner repo '''' (map sent_entry files),
                     Call_CreateCommit owner repo (Commit None (Some ''Initial commit'') (Some tr) [] None),
                     Call_CreateRef owner repo \<lparr>Ref = Some name, Object = Some \<lparr>object_SHA = Some c1\<rparr>\<rparr>]\<rparr>)"
    unfolding bootstrap' loop
    by (simp add: invoke_def store_client_def ct cc cr Let_def)
  have "file_at w3 branch p = fs p" for p
    by (simp add: file_at' w3_def w2_def w1_def)
  with mem have "list_all (\<lambda>(p, c). file_at w3 branch p = Some c) files"
    by (auto simp: list_all_iff)
  then have "holds w3 branch files"
    by (simp add: holds' w3_def w2_def)
  with run show ?thesis by simp
qed

lemma store_update_path:
  assumes head: "refs w (''refs/heads/'' @ branch) = Some h"
      and com: "commits w h = Some (m, t0, ps)"
      and tre: "trees w t0 = Some base"
      and t0: "t0 \<noteq> ''''"
      and dist: "distinct (map fst files)"
  shows "\<exists>res s'. update_path store_client owner repo branch files commitMessage
                      \<lparr>Ref = Some (''refs/heads/'' @ branch), Object = Some \<lparr>object_SHA = Some h\<rparr>\<rparr>
                      Map.empty \<lparr>world = w, calls = cs\<rparr>
                     = (Return res None, s')
                 \<and> holds (world s') branch files"
proof -
  define name where "name = ''refs/heads/'' @ branch"
  note file_at' = file_at_def [where branch = branch, folded name_def]
  note holds' = holds_def [where branch = branch, folded name_def]
  note update_path' = update_path_def [where branch = branch, folded name_def]
  note head' = head [folded name_def]
  let ?ref = "\<lparr>Ref = Some name, Object = Some \<lparr>object_SHA = Some h\<rparr>\<rparr>"
  let ?s1 = "\<lparr>world = w, calls = cs @ [Call_GetCommit owner repo h]\<rparr>"
  let ?need = "\<lambda>(p, c). file_at w branch p \<noteq> Some c"
  let ?written = "filter ?need files"
  let ?bc = "\<lparr>rc_Commit = Some (Commit (Some h) (Some m) (Some \<lparr>tree_SHA = Some t0, Entries = []\<rparr>)
                     (map (\<lambda>p. Commit (Some p) None None [] None) ps) None)\<rparr>"
  have sha: "object_GetSHA (Object ?ref) = h"
    by (simp add: object_GetSHA_def)
  have g2: "invoke (Call_GetCommit owner repo h) (Repositories_GetCommit store_client owner repo h)
              \<lparr>world = w, calls = cs\<rparr> = ((Some ?bc, Some ok, None), ?s1)"
    using com by (simp add: invoke_def store_client_def store_GetCommit_def)
  have at: "file_at w branch p = base p" for p
    using head' com tre by (simp add: file_at')
  from store_update_loop [of owner repo branch files Map.empty "[]" ?s1] obtain res cs1 where
    loop: "update_loop store_client owner repo branch files Map.empty [] ?s1
             = ((res, map sent_entry ?written), \<lparr>world = w, calls = calls ?s1 @ cs1\<rparr>)"
    by auto
  have main: "\<exists>res s'. update_path store_client owner repo branch files commitMessage ?ref
                      Map.empty \<lparr>world = w, calls = cs\<rparr> = (Return res None, s')
                 \<and> holds (world s') branch files"
  proof (cases "?written = []")
    case True
    have run: "update_path store_client owner repo branch files commitMessage ?ref Map.empty \<lparr>world = w, calls = cs\<rparr>
            = (Return res None, \<lparr>world = w, calls = calls ?s1 @ cs1\<rparr>)"
      unfolding update_path' sha Let_def g2 using loop True by simp
    from True have "\<forall>x \<in> set files. \<not> ?need x"
      by (simp add: filter_empty_conv)
    then have "list_all (\<lambda>(p, c). file_at w branch p = Some c) files"
      by (auto simp: list_all_iff)
    with head' com have "holds w branch files"
      by (simp add: holds')
    with run show ?thesis by simp
  next
    case False
    let ?s2 = "\<lparr>world = w, calls = calls ?s1 @ cs1\<rparr>"
    have dw: "distinct (map fst ?written)"
      using dist by (simp add: distinct_map_filter)
    from add_entries_sent [of base ?written] dw obtain fs where
      add: "add_entries base (map sent_entry ?written) = Some fs"
      and other: "\<forall>p. p \<notin> fst ` set ?written \<longrightarrow> fs p = base p"
      and mem: "\<forall>(p, c) \<in> set ?written. fs p = Some c"
      by blast
    define t1 where "t1 = fresh_sha (CHR ''t'') w"
    define w1 where "w1 = w\<lparr>trees := (trees w)(t1 \<mapsto> fs), counter := Suc (counter w)\<rparr>"
    define c1 where "c1 = fresh_sha (CHR ''c'') w1"
    define w2 where "w2 = w1\<lparr>commits := (commits w1)(c1 \<mapsto> (commitMessage, t1, [h])), counter := Suc (counter w1)\<rparr>"
    define w3 where "w3 = w2\<lparr>refs := (refs w2)(name \<mapsto> c1)\<rparr>"
    define tr where "tr = \<lparr>tree_SHA = Some t1, Entries = map sent_entry ?written\<rparr>"
    define nc where "nc = Commit None (Some commitMessage) (Some tr) [Commit (Some h) None None [] None] None"
    have g3: "store_GetRef owner repo name w = (Inr ?ref, w)"
      using head' by (simp add: store_GetRef_def)
    have ct: "store_CreateTree owner repo t0 (map sent_entry ?written) w = (Inr tr, w1)"
      using add tre t0 by (simp add: store_CreateTree_def t1_def w1_def tr_def)
    have cc: "store_CreateCommit owner repo nc w1
                = (Inr (Commit (Some c1) (Some commitMessage) (Some tr) [Commit (Some h) None None [] None] None), w2)"
      using com
      by (simp add: store_CreateCommit_def tree_GetSHA_def parent_shas_def tr_def w1_def w2_def c1_def nc_def)
    have ur: "store_UpdateRef owner repo \<lparr>Ref = Some name, Object = Some \<lparr>object_SHA = Some c1\<rparr>\<rparr> False w2
                = (None, w3)"
      using head' by (simp add: store_UpdateRef_def object_GetSHA_def w1_def w2_def w3_def)
    have run: "\<exists>s'. update_path store_client owner repo branch files commitMessage ?ref Map.empty \<lparr>world = w, calls = cs\<rparr>
            = (Return res None, s') \<and> world s' = w3"
      unfolding update_path' sha Let_def g2 using loop False
      by (simp add: invoke_def store_client_def g3 object_GetSHA_def tree_GetSHA_def
            ct [unfolded tr_def] cc [unfolded nc_def tr_def] ur)
    have f3: "file_at w3 branch p = fs p" for p
      by (simp add: file_at' w3_def w2_def w1_def)
    have "fs p = Some c" if pc: "(p, c) \<in> set files" for p c
    proof (cases "file_at w branch p = Some c")
      case True
      have "p \<notin> fst ` set ?written"
      proof
        assume "p \<in> fst ` set ?written"
        then obtain c' where c': "(p, c') \<in> set files" "file_at w branch p \<noteq> Some c'" by auto
        from dist pc c'(1) have "c' = c"
          by (meson eq_key_imp_eq_value)
        with c'(2) True show False by simp
      qed
      with other have "fs p = base p" by simp
      with True at show ?thesis by simp
    next
      case False
      with pc have "(p, c) \<in> set ?written" by simp
      with mem show ?thesis by blast
    qed
    with f3 have "list_all (\<lambda>(p, c). file_at w3 branch p = Some c) files"
      by (auto simp: list_all_iff)
    then have "holds w3 branch files"
      by (simp add: holds' w3_def w2_def)
    with run show ?thesis by auto
  qed
  then show ?thesis unfolding name_def .
qed

section \<open>createRepo: what is sent when the repository is missing\<close>

text \<open>
  Claim C10. When the lookup of \<^verbatim>\<open>createRepo\<close> answers 404 (a 404 response together with
  an error), exactly two requests are issued: the lookup with \<open>owner\<close> and \<open>repoName\<close>, and
  one creation request whose organization argument is the empty string and whose repository
  has the name \<open>repoName\<close>, \<open>Private = false\<close>, \<open>AutoInit = true\<close> and the description
  "Auto-created with Go script". The creation request does not mention \<open>owner\<close>.
\<close>

theorem createRepo_creates_with_empty_org:
  assumes "Repositories_Get cl owner repoName (world s0) = ((Some r, Some e), w1)"
      and "StatusCode r = 404"
  shows "calls (snd (createRepo cl owner repoName s0)) =
           calls s0 @ [Call_Repositories_Get owner repoName,
             Call_Repositories_Create ''''
               \<lparr>Name = Some repoName, Private = Some False, AutoInit = Some True,
                Description = Some ''Auto-created with Go script'', repo_HTMLURL = None\<rparr>]"
  using assms by (simp add: createRepo_def invoke_def Let_def split: prod.splits sum.splits)

theorem createRepo_creates_with_empty_org_witness:
  "calls (snd (createRepo no_repo_client ''Santosh-etailify'' ''gitapis10'' (fresh 0))) =
     [Call_Repositories_Get ''Santosh-etailify'' ''gitapis10'',
      Call_Repositories_Create ''''
        \<lparr>Name = Some ''gitapis10'', Private = Some False, AutoInit = Some True,
         Description = Some ''Auto-created with Go script'', repo_HTMLURL = None\<rparr>]"
  using createRepo_creates_with_empty_org [of no_repo_client "''Santosh-etailify''" "''gitapis10''"
      "fresh 0" not_found "ErrorResponse not_found" 0]
  by (simp add: scen_defs)

section \<open>createRepo: a lookup that fails without an answer\<close>

text \<open>
  The parts of claim C8 that hold: a lookup without error is a no-op, and a lookup that
  fails with a response other than 404 returns the error and sends nothing else.
\<close>

lemma createRepo_found:
  assumes "Repositories_Get cl owner repoName (world s0) = ((resp, None), w1)"
  shows "createRepo cl owner repoName s0 =
           (None, \<lparr>world = w1, calls = calls s0 @ [Call_Repositories_Get owner repoName]\<rparr>)"
  using assms by (simp add: createRepo_def invoke_def)

lemma createRepo_other_status:
  assumes "Repositories_Get cl owner repoName (world s0) = ((Some r, Some e), w1)"
      and "StatusCode r \<noteq> 404"
  shows "createRepo cl owner repoName s0 =
           (Some (Error_checking e), \<lparr>world = w1, calls = calls s0 @ [Call_Repositories_Get owner repoName]\<rparr>)"
  using assms by (simp add: createRepo_def invoke_def)

text \<open>
  Claim C8, at the input where it fails. The lookup fails and there is no response at all
  (the request never reached the service, so \<^verbatim>\<open>resp\<close> is nil). The guard of line 193 lets
  this case through: \<^verbatim>\<open>createRepo\<close> goes on to send the creation request and returns no
  error, where the claim says that every lookup failure other than 404 is returned and
  nothing is created.
\<close>

theorem createRepo_creates_without_an_answer:
  "createRepo unreachable_client ''o'' ''r'' (fresh 0) =
     (None, \<lparr>world = 0, calls = [Call_Repositories_Get ''o'' ''r'',
        Call_Repositories_Create '''' \<lparr>Name = Some ''r'', Private = Some False, AutoInit = Some True,
          Description = Some ''Auto-created with Go script'', repo_HTMLURL = None\<rparr>]\<rparr>)"
  by (simp add: createRepo_def invoke_def Let_def scen_defs)

section \<open>The update path: how one path is classified\<close>

text \<open>
  What one iteration of the update loop does, case by case on the answers it gets: an
  absent file is \<open>created\<close> and written, an identical one is \<open>skipped\<close> without a blob
  request, a different one is \<open>updated\<close> and written, and a failed read or a failed decoding
  leaves \<open>error\<close> without a blob request. In every case the iteration returns to the loop.
\<close>

lemma update_file_absent:
  assumes "invoke (Call_GetContents owner repo path branch)
             (Repositories_GetContents cl owner repo path branch) s0 = ((current, Some r, err), s1)"
      and "StatusCode r = 404"
      and "invoke (Call_CreateBlob owner repo (blob_of newContent))
             (Git_CreateBlob cl owner repo (blob_of newContent)) s1 = (Inr b, s2)"
  shows "update_file cl owner repo branch path newContent result es s0
           = ((result(path \<mapsto> ''created''), es @ [entry_of path b]), s2)"
  using assms by (simp add: update_file_def decide_def is_404_def)

lemma update_file_same:
  assumes "invoke (Call_GetContents owner repo path branch)
             (Repositories_GetContents cl owner repo path branch) s0 = ((Some c, resp, None), s1)"
      and "\<not> is_404 resp"
      and "GetContent c = Inr newContent"
  shows "update_file cl owner repo branch path newContent result es s0
           = ((result(path \<mapsto> ''skipped''), es), s1)"
  using assms by (simp add: update_file_def decide_def)

lemma update_file_differs:
  assumes "invoke (Call_GetContents owner repo path branch)
             (Repositories_GetContents cl owner repo path branch) s0 = ((Some c, resp, None), s1)"
      and "\<not> is_404 resp"
      and "GetContent c = Inr old" and "old \<noteq> newContent"
      and "invoke (Call_CreateBlob owner repo (blob_of newContent))
             (Git_CreateBlob cl owner repo (blob_of newContent)) s1 = (Inr b, s2)"
  shows "update_file cl owner repo branch path newContent result es s0
           = ((result(path \<mapsto> ''updated''), es @ [entry_of path b]), s2)"
  using assms by (simp add: update_file_def decide_def)

lemma update_file_read_error:
  assumes "invoke (Call_GetContents owner repo path branch)
             (Repositories_GetContents cl owner repo path branch) s0 = ((current, resp, Some e), s1)"
      and "\<not> is_404 resp"
  shows "update_file cl owner repo branch path newContent result es s0
           = ((result(path \<mapsto> ''error''), es), s1)"
  using assms by (simp add: update_file_def decide_def)

lemma update_file_decode_error:
  assumes "invoke (Call_GetContents owner repo path branch)
             (Repositories_GetContents cl owner repo path branch) s0 = ((Some c, resp, None), s1)"
      and "\<not> is_404 resp"
      and "GetContent c = Inl e"
  shows "update_file cl owner repo branch path newContent result es s0
           = ((result(path \<mapsto> ''error''), es), s1)"
  using assms by (simp add: update_file_def decide_def)

section \<open>The update path: runs that leave the claimed classification\<close>

text \<open>
  Claim C1, at the input where it fails. The branch exists, \<open>a.txt\<close> is absent on it (the
  content read answers 404), and the blob creation is refused. The status was already set
  to \<open>created\<close> at line 107 and the \<^verbatim>\<open>continue\<close> of line 127 leaves it: the call returns
  \<open>created\<close> for the path, without error and without a tree entry, where the claim says that
  a failed blob creation leaves the status \<open>error\<close>.
\<close>

theorem update_blob_failure_keeps_created:
  "upsertMultipleFilesSafe blob_refused_client ''o'' ''r'' ''main'' [(''a.txt'', ''hello'')] ''msg'' (fresh 0)
     = (Return [''a.txt'' \<mapsto> ''created''] None,
        \<lparr>world = 1, calls = [Call_GetRef ''o'' ''r'' ''refs/heads/main'', Call_GetCommit ''o'' ''r'' ''h0'',
           Call_GetContents ''o'' ''r'' ''a.txt'' ''main'', Call_CreateBlob ''o'' ''r'' (blob_of ''hello'')]\<rparr>)"
  by (simp add: run_defs scen_defs)

text \<open>
  Claim C5, at the input where it fails. The path \<open>docs\<close> names a directory on the branch:
  the content read succeeds with a nil file content. None of the three tests of lines
  106-120 matches, control falls through to the blob creation, and a tree entry for \<open>docs\<close>
  is appended and committed while the status of \<open>docs\<close> stays \<open>error\<close>.
\<close>

theorem directory_path_written_with_error_status:
  "upsertMultipleFilesSafe directory_client ''o'' ''r'' ''main'' [(''docs'', ''hello'')] ''msg'' (fresh 0)
     = (Return [''docs'' \<mapsto> ''error''] None,
        \<lparr>world = 2, calls = [Call_GetRef ''o'' ''r'' ''refs/heads/main'', Call_GetCommit ''o'' ''r'' ''h0'',
           Call_GetContents ''o'' ''r'' ''docs'' ''main'',
           Call_CreateBlob ''o'' ''r'' (blob_of ''hello''),
           Call_GetRef ''o'' ''r'' ''refs/heads/main'',
           Call_CreateTree ''o'' ''r'' ''t0''
             [\<lparr>Path = Some ''docs'', Mode = Some ''100644'', Type = Some ''blob'', entry_SHA = Some ''b1''\<rparr>],
           Call_CreateCommit ''o'' ''r''
             (Commit None (Some ''msg'')
               (Some \<lparr>tree_SHA = Some ''t1'', Entries =
                  [\<lparr>Path = Some ''docs'', Mode = Some ''100644'', Type = Some ''blob'', entry_SHA = Some ''b1''\<rparr>]\<rparr>)
               [Commit (Some ''h0'') None None [] None] None),
           Call_UpdateRef ''o'' ''r''
             \<lparr>Ref = Some ''refs/heads/main'', Object = Some \<lparr>object_SHA = Some ''c1''\<rparr>\<rparr> False]\<rparr>)"
  by (simp add: run_defs scen_defs)

section \<open>The bootstrap path: a commit without tree entries\<close>

text \<open>
  The half of claim C3 that holds: on the update path, when the loop leaves no tree entry
  the call returns the result map without error and has issued no tree, commit or ref write.
\<close>

lemma update_path_without_entries:
  assumes "invoke (Call_GetRef owner repo (''refs/heads/'' @ branch))
             (Git_GetRef cl owner repo (''refs/heads/'' @ branch)) s0 = (Inr ref, s1)"
      and "invoke (Call_GetCommit owner repo (object_GetSHA (Object ref)))
             (Repositories_GetCommit cl owner repo (object_GetSHA (Object ref))) s1
             = ((Some baseCommit, resp, None), s2)"
      and "rc_Commit baseCommit \<noteq> None"
      and "update_loop cl owner repo branch files Map.empty [] s2 = ((result, []), s3)"
  shows "upsertMultipleFilesSafe cl owner repo branch files commitMessage s0 = (Return result None, s3)
       \<and> filter mutates (calls s3) = filter mutates (calls s0)"
proof -
  have run: "upsertMultipleFilesSafe cl owner repo branch files commitMessage s0 = (Return result None, s3)"
    using assms by (simp add: upsertMultipleFilesSafe_def update_path_def Let_def)
  from update_loop_calls [OF assms(4)] obtain cs where
    cs: "calls s3 = calls s2 @ cs" "list_all per_file cs" by blast
  have "calls s3 = calls s0 @ [Call_GetRef owner repo (''refs/heads/'' @ branch),
          Call_GetCommit owner repo (object_GetSHA (Object ref))] @ cs"
    using invoke_calls [OF assms(1)] invoke_calls [OF assms(2)] cs(1) by simp
  then have "filter mutates (calls s3) = filter mutates (calls s0)"
    using per_file_not_mutates [OF cs(2)] by (simp add: mutates_def)
  with run show ?thesis by simp
qed

text \<open>
  Claim C3, at the input where it fails. The branch is absent and the file set is empty.
  The bootstrap path has no test on the number of tree entries (the update path has one at
  line 138): it asks for a tree with no entries and then creates the commit
  "Initial commit" and the branch ref, where the claim says that no commit is created
  without a tree entry.
\<close>

theorem bootstrap_commits_empty_tree:
  "upsertMultipleFilesSafe empty_repo_client ''o'' ''r'' ''main'' [] ''msg'' (fresh 0)
     = (Return Map.empty None,
        \<lparr>world = 1, calls = [Call_GetRef ''o'' ''r'' ''refs/heads/main'',
           Call_CreateTree ''o'' ''r'' '''' [],
           Call_CreateCommit ''o'' ''r''
             (Commit None (Some ''Initial commit'') (Some \<lparr>tree_SHA = Some ''t1'', Entries = []\<rparr>) [] None),
           Call_CreateRef ''o'' ''r''
             \<lparr>Ref = Some ''refs/heads/main'', Object = Some \<lparr>object_SHA = Some ''c1''\<rparr>\<rparr>]\<rparr>)"
  by (simp add: run_defs scen_defs)

section \<open>The commits that are created\<close>

text \<open>
  Supporting facts: a run of the bootstrap path that has its tree, and a run of the update
  path that has passed the recheck and has its tree, each send one commit-creation request;
  and whatever commit-creation request a call issues has the form of its path.
\<close>

lemma per_file_no_commit_request: "list_all per_file cs \<Longrightarrow> filter is_commit_request cs = []"
  by (induction cs) (auto simp: per_file_def is_commit_request_def split: call.splits)

lemma bootstrap_sends_initial_commit:
  assumes gr: "invoke (Call_GetRef owner repo (''refs/heads/'' @ branch))
             (Git_GetRef cl owner repo (''refs/heads/'' @ branch)) s0 = (Inl err, s1)"
      and ab: "branch_absent err"
      and loop: "bootstrap_loop cl owner repo files Map.empty [] s1 = ((None, result, es), s2)"
      and ct: "invoke (Call_CreateTree owner repo '''' es) (Git_CreateTree cl owner repo '''' es) s2 = (Inr t, s3)"
  shows "filter is_commit_request (calls (snd (upsertMultipleFilesSafe cl owner repo branch files commitMessage s0)))
           = filter is_commit_request (calls s0)
             @ [Call_CreateCommit owner repo (Commit None (Some ''Initial commit'') (Some t) [] None)]"
proof -
  let ?commit = "Commit None (Some ''Initial commit'') (Some t) [] None"
  obtain x s4 where cc: "invoke (Call_CreateCommit owner repo ?commit) (Git_CreateCommit cl owner repo ?commit) s3 = (x, s4)"
    by (metis prod.exhaust)
  from bootstrap_loop_calls [OF loop] obtain cs where
    cs: "calls s2 = calls s1 @ cs" "list_all per_file cs" by blast
  have l4: "calls s4 = calls s0 @ [Call_GetRef owner repo (''refs/heads/'' @ branch)] @ cs
              @ [Call_CreateTree owner repo '''' es, Call_CreateCommit owner repo ?commit]"
    using invoke_calls [OF gr] invoke_calls [OF ct] invoke_calls [OF cc] cs(1) by simp
  have f4: "filter is_commit_request (calls s4)
              = filter is_commit_request (calls s0) @ [Call_CreateCommit owner repo ?commit]"
    unfolding l4 using per_file_no_commit_request [OF cs(2)] by (simp add: is_commit_request_def)
  show ?thesis
  proof (cases x)
    case (Inl e)
    have "upsertMultipleFilesSafe cl owner repo branch files commitMessage s0
            = (Return result (Some (CreateCommit_init e)), s4)"
      using gr ab loop ct cc Inl by (simp add: upsertMultipleFilesSafe_def bootstrap_def Let_def)
    with f4 show ?thesis by simp
  next
    case (Inr newCommit)
    let ?ref = "\<lparr>Ref = Some (''refs/heads/'' @ branch), Object = Some \<lparr>object_SHA = commit_SHA newCommit\<rparr>\<rparr>"
    obtain y s5 where cr: "invoke (Call_CreateRef owner repo ?ref) (Git_CreateRef cl owner repo ?ref) s4 = (y, s5)"
      by (metis prod.exhaust)
    have f5: "filter is_commit_request (calls s5)
              = filter is_commit_request (calls s0) @ [Call_CreateCommit owner repo ?commit]"
      using invoke_calls [OF cr] f4 by (simp add: is_commit_request_def)
    have "snd (upsertMultipleFilesSafe cl owner repo branch files commitMessage s0) = s5"
      using gr ab loop ct cc Inr cr
      by (simp add: upsertMultipleFilesSafe_def bootstrap_def Let_def split: option.splits)
    with f5 show ?thesis by simp
  qed
qed

lemma update_sends_commit:
  assumes gr: "invoke (Call_GetRef owner repo (''refs/heads/'' @ branch))
             (Git_GetRef cl owner repo (''refs/heads/'' @ branch)) s0 = (Inr ref, s1)"
      and gc: "invoke (Call_GetCommit owner repo (object_GetSHA (Object ref)))
             (Repositories_GetCommit cl owner repo (object_GetSHA (Object ref))) s1
             = ((Some baseCommit, resp, None), s2)"
      and bc: "rc_Commit baseCommit = Some k"
      and loop: "update_loop cl owner repo branch files Map.empty [] s2 = ((result, es), s3)"
      and ne: "es \<noteq> []"
      and rc: "invoke (Call_GetRef owner repo (''refs/heads/'' @ branch))
             (Git_GetRef cl owner repo (''refs/heads/'' @ branch)) s3 = (Inr refCheck, s4)"
      and same: "object_GetSHA (Object refCheck) = object_GetSHA (Object ref)"
      and ct: "invoke (Call_CreateTree owner repo (tree_GetSHA (commit_Tree k)) es)
             (Git_CreateTree cl owner repo (tree_GetSHA (commit_Tree k)) es) s4 = (Inr newTree, s5)"
  shows "filter is_commit_request (calls (snd (upsertMultipleFilesSafe cl owner repo branch files commitMessage s0)))
           = filter is_commit_request (calls s0)
             @ [Call_CreateCommit owner repo (Commit None (Some commitMessage) (Some newTree)
                  [Commit (Some (object_GetSHA (Object ref))) None None [] None] None)]"
proof -
  let ?commit = "Commit None (Some commitMessage) (Some newTree)
                  [Commit (Some (object_GetSHA (Object ref))) None None [] None] None"
  obtain x s6 where cc: "invoke (Call_CreateCommit owner repo ?commit) (Git_CreateCommit cl owner repo ?commit) s5 = (x, s6)"
    by (metis prod.exhaust)
  from update_loop_calls [OF loop] obtain cs where
    cs: "calls s3 = calls s2 @ cs" "list_all per_file cs" by blast
  have l6: "calls s6 = calls s0 @ [Call_GetRef owner repo (''refs/heads/'' @ branch),
                Call_GetCommit owner repo (object_GetSHA (Object ref))] @ cs
              @ [Call_GetRef owner repo (''refs/heads/'' @ branch),
                 Call_CreateTree owner repo (tree_GetSHA (commit_Tree k)) es,
                 Call_CreateCommit owner repo ?commit]"
    using invoke_calls [OF gr] invoke_calls [OF gc] invoke_calls [OF rc] invoke_calls [OF ct]
      invoke_calls [OF cc] cs(1) by simp
  have f6: "filter is_commit_request (calls s6)
              = filter is_commit_request (calls s0) @ [Call_CreateCommit owner repo ?commit]"
    unfolding l6 using per_file_no_commit_request [OF cs(2)] by (simp add: is_commit_request_def)
  note run = gr gc bc loop ne rc same ct cc
  show ?thesis
  proof (cases x)
    case (Inl e)
    have "snd (upsertMultipleFilesSafe cl owner repo branch files commitMessage s0) = s6"
      using run Inl by (simp add: upsertMultipleFilesSafe_def update_path_def Let_def)
    with f6 show ?thesis by simp
  next
    case (Inr commit)
    show ?thesis
    proof (cases "Object ref")
      case None
      have "snd (upsertMultipleFilesSafe cl owner repo branch files commitMessage s0) = s6"
        using run Inr None by (simp add: upsertMultipleFilesSafe_def update_path_def Let_def)
      with f6 show ?thesis by simp
    next
      case (Some obj)
      let ?ref2 = "ref\<lparr>Object := Some (obj\<lparr>object_SHA := commit_SHA commit\<rparr>)\<rparr>"
      obtain y s7 where ur: "invoke (Call_UpdateRef owner repo ?ref2 False)
                           (Git_UpdateRef cl owner repo ?ref2 False) s6 = (y, s7)"
        by (metis prod.exhaust)
      have f7: "filter is_commit_request (calls s7)
              = filter is_commit_request (calls s0) @ [Call_CreateCommit owner repo ?commit]"
        using invoke_calls [OF ur] f6 by (simp add: is_commit_request_def)
      have "snd (upsertMultipleFilesSafe cl owner repo branch files commitMessage s0) = s7"
        using run Inr Some ur
        by (simp add: upsertMultipleFilesSafe_def update_path_def Let_def split: option.splits)
      with f7 show ?thesis by simp
    qed
  qed
qed

lemma commit_requests_shape:
  assumes "upsertMultipleFilesSafe cl owner repo branch files commitMessage s0 = (ret, s')"
      and "Call_CreateCommit a b c \<in> set (calls s')"
      and "Call_CreateCommit a b c \<notin> set (calls s0)"
  shows "case fst (Git_GetRef cl owner repo (''refs/heads/'' @ branch) (world s0)) of
           Inl err \<Rightarrow> Message c = Some ''Initial commit'' \<and> Parents c = []
         | Inr ref \<Rightarrow> Message c = Some commitMessage
             \<and> Parents c = [Commit (Some (object_GetSHA (Object ref))) None None [] None]"
proof -
  obtain x s1 where gr: "invoke (Call_GetRef owner repo (''refs/heads/'' @ branch))
             (Git_GetRef cl owner repo (''refs/heads/'' @ branch)) s0 = (x, s1)"
    by (metis prod.exhaust)
  have c1: "calls s1 = calls s0 @ [Call_GetRef owner repo (''refs/heads/'' @ branch)]"
    using invoke_calls [OF gr] .
  have w: "fst (Git_GetRef cl owner repo (''refs/heads/'' @ branch) (world s0)) = x"
    using invoke_world [OF gr] by simp
  have notin: "Call_CreateCommit a b c \<notin> set (calls s1)"
    using assms(3) c1 by simp
  show ?thesis
  proof (cases x)
    case (Inl err)
    show ?thesis
    proof (cases "branch_absent err")
      case True
      with assms(1) gr Inl have "bootstrap cl owner repo branch files Map.empty s1 = (ret, s')"
        by (simp add: upsertMultipleFilesSafe_def)
      from bootstrap_commit_calls [OF this assms(2)] notin w Inl show ?thesis by simp
    next
      case False
      with assms(1) gr Inl have "s' = s1"
        by (simp add: upsertMultipleFilesSafe_def)
      with assms(2) notin show ?thesis by simp
    qed
  next
    case (Inr ref)
    with assms(1) gr have "update_path cl owner repo branch files commitMessage ref Map.empty s1 = (ret, s')"
      by (simp add: upsertMultipleFilesSafe_def)
    from update_path_commit_calls [OF this assms(2)] notin w Inr show ?thesis by simp
  qed
qed

text \<open>
  Claim C7. On the bootstrap path, once every blob and the tree have been created, the call
  sends exactly one commit-creation request, for a commit with the message "Initial commit",
  the new tree and no parents. On the update path, once the recheck has found the branch
  unmoved and the tree has been created, the call sends exactly one commit-creation request,
  for a commit with the caller's \<open>commitMessage\<close>, the new tree and exactly one parent, whose
  SHA is the \<open>originalHeadSHA\<close> read from the first \<^verbatim>\<open>GetRef\<close>. In every run, any
  commit-creation request the call issues has the message and the parents of its path.
\<close>

theorem commit_message_and_parents:
  "(invoke (Call_GetRef owner repo (''refs/heads/'' @ branch))
        (Git_GetRef cl owner repo (''refs/heads/'' @ branch)) s0 = (Inl err, s1)
      \<and> branch_absent err
      \<and> bootstrap_loop cl owner repo files Map.empty [] s1 = ((None, result, es), s2)
      \<and> invoke (Call_CreateTree owner repo '''' es) (Git_CreateTree cl owner repo '''' es) s2 = (Inr t, s3)
    \<longrightarrow> filter is_commit_request (calls (snd (upsertMultipleFilesSafe cl owner repo branch files commitMessage s0)))
          = filter is_commit_request (calls s0)
            @ [Call_CreateCommit owner repo (Commit None (Some ''Initial commit'') (Some t) [] None)])
   \<and> (invoke (Call_GetRef owner repo (''refs/heads/'' @ branch))
        (Git_GetRef cl owner repo (''refs/heads/'' @ branch)) s0 = (Inr ref, u1)
      \<and> invoke (Call_GetCommit owner repo (object_GetSHA (Object ref)))
          (Repositories_GetCommit cl owner repo (object_GetSHA (Object ref))) u1
          = ((Some baseCommit, resp, None), u2)
      \<and> rc_Commit baseCommit = Some k
      \<and> update_loop cl owner repo branch files Map.empty [] u2 = ((result2, es2), u3)
      \<and> es2 \<noteq> []
      \<and> invoke (Call_GetRef owner repo (''refs/heads/'' @ branch))
          (Git_GetRef cl owner repo (''refs/heads/'' @ branch)) u3 = (Inr refCheck, u4)
      \<and> object_GetSHA (Object refCheck) = object_GetSHA (Object ref)
      \<and> invoke (Call_CreateTree owner repo (tree_GetSHA (commit_Tree k)) es2)
          (Git_CreateTree cl owner repo (tree_GetSHA (commit_Tree k)) es2) u4 = (Inr newTree, u5)
    \<longrightarrow> filter is_commit_request (calls (snd (upsertMultipleFilesSafe cl owner repo branch files commitMessage s0)))
          = filter is_commit_request (calls s0)
            @ [Call_CreateCommit owner repo (Commit None (Some commitMessage) (Some newTree)
                 [Commit (Some (object_GetSHA (Object ref))) None None [] None] None)])
   \<and> (Call_CreateCommit a b c \<in> set (calls (snd (upsertMultipleFilesSafe cl owner repo branch files commitMessage s0)))
      \<and> Call_CreateCommit a b c \<notin> set (calls s0)
    \<longrightarrow> (case fst (Git_GetRef cl owner repo (''refs/heads/'' @ branch) (world s0)) of
           Inl e \<Rightarrow> Message c = Some ''Initial commit'' \<and> Parents c = []
         | Inr r \<Rightarrow> Message c = Some commitMessage
             \<and> Parents c = [Commit (Some (object_GetSHA (Object r))) None None [] None]))"
proof (intro conjI impI)
  assume "invoke (Call_GetRef owner repo (''refs/heads/'' @ branch))
        (Git_GetRef cl owner repo (''refs/heads/'' @ branch)) s0 = (Inl err, s1)
      \<and> branch_absent err
      \<and> bootstrap_loop cl owner repo files Map.empty [] s1 = ((None, result, es), s2)
      \<and> invoke (Call_CreateTree owner repo '''' es) (Git_CreateTree cl owner repo '''' es) s2 = (Inr t, s3)"
  then show "filter is_commit_request (calls (snd (upsertMultipleFilesSafe cl owner repo branch files commitMessage s0)))
          = filter is_commit_request (calls s0)
            @ [Call_CreateCommit owner repo (Commit None (Some ''Initial commit'') (Some t) [] None)]"
    using bootstrap_sends_initial_commit by blast
next
  assume "invoke (Call_GetRef owner repo (''refs/heads/'' @ branch))
        (Git_GetRef cl owner repo (''refs/heads/'' @ branch)) s0 = (Inr ref, u1)
      \<and> invoke (Call_GetCommit owner repo (object_GetSHA (Object ref)))
          (Repositories_GetCommit cl owner repo (object_GetSHA (Object ref))) u1
          = ((Some baseCommit, resp, None), u2)
      \<and> rc_Commit baseCommit = Some k
      \<and> update_loop cl owner repo branch files Map.empty [] u2 = ((result2, es2), u3)
      \<and> es2 \<noteq> []
      \<and> invoke (Call_GetRef owner repo (''refs/heads/'' @ branch))
          (Git_GetRef cl owner repo (''refs/heads/'' @ branch)) u3 = (Inr refCheck, u4)
      \<and> object_GetSHA (Object refCheck) = object_GetSHA (Object ref)
      \<and> invoke (Call_CreateTree owner repo (tree_GetSHA (commit_Tree k)) es2)
          (Git_CreateTree cl owner repo (tree_GetSHA (commit_Tree k)) es2) u4 = (Inr newTree, u5)"
  then show "filter is_commit_request (calls (snd (upsertMultipleFilesSafe cl owner repo branch files commitMessage s0)))
          = filter is_commit_request (calls s0)
            @ [Call_CreateCommit owner repo (Commit None (Some commitMessage) (Some newTree)
                 [Commit (Some (object_GetSHA (Object ref))) None None [] None] None)]"
    using update_sends_commit [of owner repo branch cl s0 ref u1 baseCommit resp u2 k files result2 es2 u3
        refCheck u4 newTree u5 commitMessage] by blast
next
  assume "Call_CreateCommit a b c \<in> set (calls (snd (upsertMultipleFilesSafe cl owner repo branch files commitMessage s0)))
      \<and> Call_CreateCommit a b c \<notin> set (calls s0)"
  then show "case fst (Git_GetRef cl owner repo (''refs/heads/'' @ branch) (world s0)) of
           Inl e \<Rightarrow> Message c = Some ''Initial commit'' \<and> Parents c = []
         | Inr r \<Rightarrow> Message c = Some commitMessage
             \<and> Parents c = [Commit (Some (object_GetSHA (Object r))) None None [] None]"
    using commit_requests_shape [OF prod.collapse [symmetric]] by blast
qed

theorem commit_message_and_parents_witness:
  "filter is_commit_request
     (calls (snd (upsertMultipleFilesSafe empty_repo_client ''o'' ''r'' ''main'' [(''a.txt'', ''hello'')] ''msg'' (fresh 0))))
     = [Call_CreateCommit ''o'' ''r'' (Commit None (Some ''Initial commit'')
          (Some \<lparr>tree_SHA = Some ''t1'',
                 Entries = [entry_of ''a.txt'' ((blob_of ''hello'')\<lparr>blob_SHA := Some ''b1''\<rparr>)]\<rparr>) [] None)]
   \<and> filter is_commit_request
     (calls (snd (upsertMultipleFilesSafe base_client ''o'' ''r'' ''main'' [(''a.txt'', ''hello'')] ''msg'' (fresh 0))))
     = [Call_CreateCommit ''o'' ''r'' (Commit None (Some ''msg'')
          (Some \<lparr>tree_SHA = Some ''t1'',
                 Entries = [entry_of ''a.txt'' ((blob_of ''hello'')\<lparr>blob_SHA := Some ''b1''\<rparr>)]\<rparr>)
          [Commit (Some ''h0'') None None [] None] None)]"
proof -
  let ?e = "entry_of ''a.txt'' ((blob_of ''hello'')\<lparr>blob_SHA := Some ''b1''\<rparr>)"
  let ?t = "\<lparr>tree_SHA = Some ''t1'', Entries = [?e]\<rparr>"
  let ?s1 = "\<lparr>world = 1::nat, calls = [Call_GetRef ''o'' ''r'' ''refs/heads/main'']\<rparr>"
  let ?s2 = "\<lparr>world = 1::nat, calls = [Call_GetRef ''o'' ''r'' ''refs/heads/main'',
                Call_CreateBlob ''o'' ''r'' (blob_of ''hello'')]\<rparr>"
  let ?s3 = "\<lparr>world = 1::nat, calls = [Call_GetRef ''o'' ''r'' ''refs/heads/main'',
                Call_CreateBlob ''o'' ''r'' (blob_of ''hello''), Call_CreateTree ''o'' ''r'' '''' [?e]]\<rparr>"
  have a1: "invoke (Call_GetRef ''o'' ''r'' (''refs/heads/'' @ ''main''))
             (Git_GetRef empty_repo_client ''o'' ''r'' (''refs/heads/'' @ ''main'')) (fresh 0)
             = (Inl (ErrorResponse not_found), ?s1)"
    by (simp add: invoke_def empty_repo_client_def base_client_def fresh_def)
  have a2: "branch_absent (ErrorResponse not_found)"
    by (simp add: branch_absent_def not_found_def)
  have a3: "bootstrap_loop empty_repo_client ''o'' ''r'' [(''a.txt'', ''hello'')] Map.empty [] ?s1
              = ((None, [''a.txt'' \<mapsto> ''created''], [?e]), ?s2)"
    by (simp add: invoke_def empty_repo_client_def base_client_def blob_of_def)
  have a4: "invoke (Call_CreateTree ''o'' ''r'' '''' [?e]) (Git_CreateTree empty_repo_client ''o'' ''r'' '''' [?e]) ?s2
              = (Inr ?t, ?s3)"
    by (simp add: invoke_def empty_repo_client_def base_client_def)
  have A: "filter is_commit_request
     (calls (snd (upsertMultipleFilesSafe empty_repo_client ''o'' ''r'' ''main'' [(''a.txt'', ''hello'')] ''msg'' (fresh 0))))
     = filter is_commit_request (calls (fresh (0::nat)))
       @ [Call_CreateCommit ''o'' ''r'' (Commit None (Some ''Initial commit'') (Some ?t) [] None)]"
    using conjunct1 [OF commit_message_and_parents [where cl = empty_repo_client and owner = "''o''"
          and repo = "''r''" and branch = "''main''" and files = "[(''a.txt'', ''hello'')]"
          and commitMessage = "''msg''" and ?s0.0 = "fresh 0" and err = "ErrorResponse not_found"
          and ?s1.0 = ?s1 and result = "[''a.txt'' \<mapsto> ''created'']" and es = "[?e]" and ?s2.0 = ?s2
          and t = ?t and ?s3.0 = ?s3]]
      a1 a2 a3 a4 by blast
  let ?u1 = ?s1
  let ?u2 = "\<lparr>world = 1::nat, calls = [Call_GetRef ''o'' ''r'' ''refs/heads/main'',
                Call_GetCommit ''o'' ''r'' ''h0'']\<rparr>"
  let ?u3 = "\<lparr>world = 1::nat, calls = [Call_GetRef ''o'' ''r'' ''refs/heads/main'',
                Call_GetCommit ''o'' ''r'' ''h0'', Call_GetContents ''o'' ''r'' ''a.txt'' ''main'',
                Call_CreateBlob ''o'' ''r'' (blob_of ''hello'')]\<rparr>"
  let ?u4 = "\<lparr>world = 2::nat, calls = [Call_GetRef ''o'' ''r'' ''refs/heads/main'',
                Call_GetCommit ''o'' ''r'' ''h0'', Call_GetContents ''o'' ''r'' ''a.txt'' ''main'',
                Call_CreateBlob ''o'' ''r'' (blob_of ''hello''), Call_GetRef ''o'' ''r'' ''refs/heads/main'']\<rparr>"
  let ?u5 = "\<lparr>world = 2::nat, calls = [Call_GetRef ''o'' ''r'' ''refs/heads/main'',
                Call_GetCommit ''o'' ''r'' ''h0'', Call_GetContents ''o'' ''r'' ''a.txt'' ''main'',
                Call_CreateBlob ''o'' ''r'' (blob_of ''hello''), Call_GetRef ''o'' ''r'' ''refs/heads/main'',
                Call_CreateTree ''o'' ''r'' ''t0'' [?e]]\<rparr>"
  let ?k = "Commit (Some ''h0'') (Some ''base'') (Some \<lparr>tree_SHA = Some ''t0'', Entries = []\<rparr>) [] None"
  have sha: "object_GetSHA (Object (ref_at ''h0'')) = ''h0''"
    by (simp add: object_GetSHA_def ref_at_def)
  have tsha: "tree_GetSHA (commit_Tree ?k) = ''t0''"
    by (simp add: tree_GetSHA_def)
  have b1: "invoke (Call_GetRef ''o'' ''r'' (''refs/heads/'' @ ''main''))
             (Git_GetRef base_client ''o'' ''r'' (''refs/heads/'' @ ''main'')) (fresh 0)
             = (Inr (ref_at ''h0''), ?u1)"
    by (simp add: invoke_def base_client_def fresh_def)
  have b2: "invoke (Call_GetCommit ''o'' ''r'' (object_GetSHA (Object (ref_at ''h0''))))
             (Repositories_GetCommit base_client ''o'' ''r'' (object_GetSHA (Object (ref_at ''h0'')))) ?u1
             = ((Some base_commit, Some ok, None), ?u2)"
    by (simp add: sha invoke_def base_client_def)
  have b3: "rc_Commit base_commit = Some ?k"
    by (simp add: base_commit_def)
  have b4: "update_loop base_client ''o'' ''r'' ''main'' [(''a.txt'', ''hello'')] Map.empty [] ?u2
             = (([''a.txt'' \<mapsto> ''created''], [?e]), ?u3)"
    by (simp add: update_file_def decide_def is_404_def invoke_def base_client_def not_found_def blob_of_def)
  have b5: "[?e] \<noteq> []" by simp
  have b6: "invoke (Call_GetRef ''o'' ''r'' (''refs/heads/'' @ ''main''))
             (Git_GetRef base_client ''o'' ''r'' (''refs/heads/'' @ ''main'')) ?u3
             = (Inr (ref_at ''h0''), ?u4)"
    by (simp add: invoke_def base_client_def)
  have b7: "object_GetSHA (Object (ref_at ''h0'')) = object_GetSHA (Object (ref_at ''h0''))" by simp
  have b8: "invoke (Call_CreateTree ''o'' ''r'' (tree_GetSHA (commit_Tree ?k)) [?e])
             (Git_CreateTree base_client ''o'' ''r'' (tree_GetSHA (commit_Tree ?k)) [?e]) ?u4 = (Inr ?t, ?u5)"
    by (simp add: tree_GetSHA_def invoke_def base_client_def)
  have B: "filter is_commit_request
     (calls (snd (upsertMultipleFilesSafe base_client ''o'' ''r'' ''main'' [(''a.txt'', ''hello'')] ''msg'' (fresh 0))))
     = filter is_commit_request (calls (fresh (0::nat)))
       @ [Call_CreateCommit ''o'' ''r'' (Commit None (Some ''msg'') (Some ?t)
            [Commit (Some (object_GetSHA (Object (ref_at ''h0'')))) None None [] None] None)]"
    using conjunct1 [OF conjunct2 [OF commit_message_and_parents [where cl = base_client and owner = "''o''"
          and repo = "''r''" and branch = "''main''" and files = "[(''a.txt'', ''hello'')]"
          and commitMessage = "''msg''" and ?s0.0 = "fresh 0" and ref = "ref_at ''h0''"
          and ?u1.0 = ?u1 and baseCommit = base_commit and resp = "Some ok" and ?u2.0 = ?u2 and k = ?k
          and ?result2.0 = "[''a.txt'' \<mapsto> ''created'']" and ?es2.0 = "[?e]" and ?u3.0 = ?u3
          and refCheck = "ref_at ''h0''" and ?u4.0 = ?u4 and newTree = ?t and ?u5.0 = ?u5]]]
      b1 b2 b3 b4 b5 b6 b7 b8 by blast
  from A B show ?thesis
    by (simp add: fresh_def sha)
qed

section \<open>The bootstrap path stops at the first failed blob\<close>

text \<open>
  Claim C6. On the bootstrap path (the branch ref is absent: \<^verbatim>\<open>GetRef\<close> answers 404 or
  409), let the loop visit the paths \<open>pre\<close>, all of whose blobs are created, and then \<open>p\<close>,
  whose blob creation fails. Then the call returns at once, in the state right after the
  failed request, with a non-nil error; the status of \<open>p\<close> is \<open>error\<close>, every path visited
  before it is \<open>created\<close>, and the paths not yet visited have no entry in the result map.
\<close>

theorem bootstrap_blob_failure:
  assumes "distinct (map fst files)"
      and "files = pre @ (p, c) # post"
      and "invoke (Call_GetRef owner repo (''refs/heads/'' @ branch))
             (Git_GetRef cl owner repo (''refs/heads/'' @ branch)) s0 = (Inl err, s1)"
      and "branch_absent err"
      and "bootstrap_loop cl owner repo pre Map.empty [] s1 = ((None, r, es), s2)"
      and "invoke (Call_CreateBlob owner repo (blob_of c)) (Git_CreateBlob cl owner repo (blob_of c)) s2 = (Inl e, s3)"
  shows "\<exists>res. upsertMultipleFilesSafe cl owner repo branch files commitMessage s0
               = (Return res (Some (CreateBlob_init e)), s3)
           \<and> res p = Some ''error''
           \<and> (\<forall>q \<in> fst ` set pre. res q = Some ''created'')
           \<and> (\<forall>q \<in> fst ` set post. res q = None)"
proof -
  have loop: "bootstrap_loop cl owner repo files Map.empty [] s1 = ((Some e, r(p \<mapsto> ''error''), es), s3)"
    using bootstrap_loop_append [OF assms(5), of "(p, c) # post"] assms(2,6) by simp
  have run: "upsertMultipleFilesSafe cl owner repo branch files commitMessage s0
               = (Return (r(p \<mapsto> ''error'')) (Some (CreateBlob_init e)), s3)"
    using assms(3,4) loop by (simp add: upsertMultipleFilesSafe_def bootstrap_def)
  have d: "p \<notin> fst ` set pre" "p \<notin> fst ` set post" "fst ` set pre \<inter> fst ` set post = {}"
    using assms(1,2) by auto
  have pre: "\<forall>q \<in> fst ` set pre. r q = Some ''created''"
    using bootstrap_loop_created [OF assms(5)] by blast
  have post: "\<forall>q \<in> fst ` set post. r q = None"
    using bootstrap_loop_other [OF assms(5)] d(3) by auto
  from run d pre post show ?thesis by auto
qed

theorem bootstrap_blob_failure_witness:
  "distinct (map fst [(''one.txt'', ''one''), (''two.txt'', ''two''), (''three.txt'', ''three'')])
   \<and> branch_absent (ErrorResponse not_found)
   \<and> snd (upsertMultipleFilesSafe second_blob_refused_client ''o'' ''r'' ''main''
                [(''one.txt'', ''one''), (''two.txt'', ''two''), (''three.txt'', ''three'')] ''msg'' (fresh 0))
         = \<lparr>world = 1, calls = [Call_GetRef ''o'' ''r'' ''refs/heads/main'',
                    Call_CreateBlob ''o'' ''r'' (blob_of ''one''), Call_CreateBlob ''o'' ''r'' (blob_of ''two'')]\<rparr>
   \<and> status_of (fst (upsertMultipleFilesSafe second_blob_refused_client ''o'' ''r'' ''main''
                [(''one.txt'', ''one''), (''two.txt'', ''two''), (''three.txt'', ''three'')] ''msg'' (fresh 0)))
         ''one.txt'' = Some ''created''
   \<and> status_of (fst (upsertMultipleFilesSafe second_blob_refused_client ''o'' ''r'' ''main''
                [(''one.txt'', ''one''), (''two.txt'', ''two''), (''three.txt'', ''three'')] ''msg'' (fresh 0)))
         ''two.txt'' = Some ''error''
   \<and> status_of (fst (upsertMultipleFilesSafe second_blob_refused_client ''o'' ''r'' ''main''
                [(''one.txt'', ''one''), (''two.txt'', ''two''), (''three.txt'', ''three'')] ''msg'' (fresh 0)))
         ''three.txt'' = None"
proof -
  let ?s1 = "\<lparr>world = 1::nat, calls = [Call_GetRef ''o'' ''r'' ''refs/heads/main'']\<rparr>"
  let ?s2 = "\<lparr>world = 1::nat, calls = [Call_GetRef ''o'' ''r'' ''refs/heads/main'',
                    Call_CreateBlob ''o'' ''r'' (blob_of ''one'')]\<rparr>"
  let ?s3 = "\<lparr>world = 1::nat, calls = [Call_GetRef ''o'' ''r'' ''refs/heads/main'',
                    Call_CreateBlob ''o'' ''r'' (blob_of ''one''), Call_CreateBlob ''o'' ''r'' (blob_of ''two'')]\<rparr>"
  have h1: "distinct (map fst [(''one.txt'', ''one''), (''two.txt'', ''two''), (''three.txt'', ''three'')])"
    by simp
  have h2: "[(''one.txt'', ''one''), (''two.txt'', ''two''), (''three.txt'', ''three'')]
              = [(''one.txt'', ''one'')] @ (''two.txt'', ''two'') # [(''three.txt'', ''three'')]"
    by simp
  have h3: "invoke (Call_GetRef ''o'' ''r'' (''refs/heads/'' @ ''main''))
             (Git_GetRef second_blob_refused_client ''o'' ''r'' (''refs/heads/'' @ ''main'')) (fresh 0)
             = (Inl (ErrorResponse not_found), ?s1)"
    by (simp add: invoke_def scen_defs)
  have h4: "branch_absent (ErrorResponse not_found)"
    by (simp add: branch_absent_def not_found_def)
  have h5: "bootstrap_loop second_blob_refused_client ''o'' ''r'' [(''one.txt'', ''one'')] Map.empty [] ?s1
              = ((None, [''one.txt'' \<mapsto> ''created''],
                  [entry_of ''one.txt'' (blob_of ''one''\<lparr>blob_SHA := Some ''b1''\<rparr>)]), ?s2)"
    by (simp add: invoke_def scen_defs blob_of_def)
  have h6: "invoke (Call_CreateBlob ''o'' ''r'' (blob_of ''two''))
              (Git_CreateBlob second_blob_refused_client ''o'' ''r'' (blob_of ''two'')) ?s2
              = (Inl (ErrorResponse server_error), ?s3)"
    by (simp add: invoke_def scen_defs blob_of_def)
  from bootstrap_blob_failure [OF h1 h2 h3 h4 h5 h6, of "''msg''"] obtain res where
    run: "upsertMultipleFilesSafe second_blob_refused_client ''o'' ''r'' ''main''
                [(''one.txt'', ''one''), (''two.txt'', ''two''), (''three.txt'', ''three'')] ''msg'' (fresh 0)
              = (Return res (Some (CreateBlob_init (ErrorResponse server_error))), ?s3)"
    and two: "res ''two.txt'' = Some ''error''"
    and one: "res ''one.txt'' = Some ''created''"
    and three: "res ''three.txt'' = None"
    by auto
  show ?thesis
    unfolding run using h1 h4 one two three by simp
qed

section \<open>The recheck of the branch ref\<close>

text \<open>
  Claim C2. On the update path, let the per-file loop end with the result map \<open>result\<close> and
  at least one tree entry, and let the second \<^verbatim>\<open>GetRef\<close> (the recheck) return a ref whose SHA
  differs from \<open>originalHeadSHA\<close>. Then the call returns \<open>result\<close> together with the non-nil
  error "SHA mismatch", in the state right after the recheck, and from beginning to end it
  has issued no tree-creation, commit-creation, ref-creation or ref-update request.
\<close>

theorem recheck_mismatch_aborts:
  assumes "invoke (Call_GetRef owner repo (''refs/heads/'' @ branch))
             (Git_GetRef cl owner repo (''refs/heads/'' @ branch)) s0 = (Inr ref, s1)"
      and "invoke (Call_GetCommit owner repo (object_GetSHA (Object ref)))
             (Repositories_GetCommit cl owner repo (object_GetSHA (Object ref))) s1
             = ((Some baseCommit, resp, None), s2)"
      and "rc_Commit baseCommit \<noteq> None"
      and "update_loop cl owner repo branch files Map.empty [] s2 = ((result, treeEntries), s3)"
      and "treeEntries \<noteq> []"
      and "invoke (Call_GetRef owner repo (''refs/heads/'' @ branch))
             (Git_GetRef cl owner repo (''refs/heads/'' @ branch)) s3 = (Inr refCheck, s4)"
      and "object_GetSHA (Object refCheck) \<noteq> object_GetSHA (Object ref)"
  shows "upsertMultipleFilesSafe cl owner repo branch files commitMessage s0
           = (Return result (Some SHA_mismatch), s4)
       \<and> filter mutates (calls s4) = filter mutates (calls s0)"
proof -
  have run: "upsertMultipleFilesSafe cl owner repo branch files commitMessage s0
           = (Return result (Some SHA_mismatch), s4)"
    using assms by (simp add: upsertMultipleFilesSafe_def update_path_def Let_def)
  from update_loop_calls [OF assms(4)] obtain cs where
    cs: "calls s3 = calls s2 @ cs" "list_all per_file cs" by blast
  have "calls s4 = calls s0 @ [Call_GetRef owner repo (''refs/heads/'' @ branch),
          Call_GetCommit owner repo (object_GetSHA (Object ref))] @ cs
          @ [Call_GetRef owner repo (''refs/heads/'' @ branch)]"
    using invoke_calls [OF assms(1)] invoke_calls [OF assms(2)] invoke_calls [OF assms(6)] cs(1)
    by simp
  then have "filter mutates (calls s4) = filter mutates (calls s0)"
    using per_file_not_mutates [OF cs(2)] by (simp add: mutates_def)
  with run show ?thesis by simp
qed

theorem recheck_mismatch_aborts_witness:
  "upsertMultipleFilesSafe moving_client ''o'' ''r'' ''main'' [(''a.txt'', ''hello'')] ''msg'' (fresh 0)
     = (Return [''a.txt'' \<mapsto> ''created''] (Some SHA_mismatch),
        \<lparr>world = 2, calls = [Call_GetRef ''o'' ''r'' ''refs/heads/main'', Call_GetCommit ''o'' ''r'' ''h0'',
           Call_GetContents ''o'' ''r'' ''a.txt'' ''main'', Call_CreateBlob ''o'' ''r'' (blob_of ''hello''),
           Call_GetRef ''o'' ''r'' ''refs/heads/main'']\<rparr>)
   \<and> object_GetSHA (Object (ref_at ''h1'')) \<noteq> object_GetSHA (Object (ref_at ''h0''))"
proof -
  let ?s1 = "\<lparr>world = 1::nat, calls = [Call_GetRef ''o'' ''r'' ''refs/heads/main'']\<rparr>"
  let ?s2 = "\<lparr>world = 1::nat, calls = [Call_GetRef ''o'' ''r'' ''refs/heads/main'',
                Call_GetCommit ''o'' ''r'' ''h0'']\<rparr>"
  let ?s3 = "\<lparr>world = 1::nat, calls = [Call_GetRef ''o'' ''r'' ''refs/heads/main'',
                Call_GetCommit ''o'' ''r'' ''h0'', Call_GetContents ''o'' ''r'' ''a.txt'' ''main'',
                Call_CreateBlob ''o'' ''r'' (blob_of ''hello'')]\<rparr>"
  let ?s4 = "\<lparr>world = 2::nat, calls = [Call_GetRef ''o'' ''r'' ''refs/heads/main'',
                Call_GetCommit ''o'' ''r'' ''h0'', Call_GetContents ''o'' ''r'' ''a.txt'' ''main'',
                Call_CreateBlob ''o'' ''r'' (blob_of ''hello''), Call_GetRef ''o'' ''r'' ''refs/heads/main'']\<rparr>"
  have sha: "object_GetSHA (Object (ref_at ''h0'')) = ''h0''"
    by (simp add: object_GetSHA_def ref_at_def)
  have h1: "invoke (Call_GetRef ''o'' ''r'' (''refs/heads/'' @ ''main''))
             (Git_GetRef moving_client ''o'' ''r'' (''refs/heads/'' @ ''main'')) (fresh 0)
             = (Inr (ref_at ''h0''), ?s1)"
    by (simp add: invoke_def moving_client_def base_client_def fresh_def)
  have h2: "invoke (Call_GetCommit ''o'' ''r'' (object_GetSHA (Object (ref_at ''h0''))))
             (Repositories_GetCommit moving_client ''o'' ''r'' (object_GetSHA (Object (ref_at ''h0'')))) ?s1
             = ((Some base_commit, Some ok, None), ?s2)"
    by (simp add: sha invoke_def moving_client_def base_client_def)
  have h3: "rc_Commit base_commit \<noteq> None"
    by (simp add: base_commit_def)
  have h4: "update_loop moving_client ''o'' ''r'' ''main'' [(''a.txt'', ''hello'')] Map.empty [] ?s2
             = (([''a.txt'' \<mapsto> ''created''], [entry_of ''a.txt'' (blob_of ''hello''\<lparr>blob_SHA := Some ''b1''\<rparr>)]), ?s3)"
    by (simp add: update_file_def decide_def is_404_def invoke_def moving_client_def base_client_def
          not_found_def blob_of_def)
  have h5: "[entry_of ''a.txt'' (blob_of ''hello''\<lparr>blob_SHA := Some ''b1''\<rparr>)] \<noteq> []"
    by simp
  have h6: "invoke (Call_GetRef ''o'' ''r'' (''refs/heads/'' @ ''main''))
             (Git_GetRef moving_client ''o'' ''r'' (''refs/heads/'' @ ''main'')) ?s3
             = (Inr (ref_at ''h1''), ?s4)"
    by (simp add: invoke_def moving_client_def base_client_def)
  have h7: "object_GetSHA (Object (ref_at ''h1'')) \<noteq> object_GetSHA (Object (ref_at ''h0''))"
    by (simp add: object_GetSHA_def ref_at_def)
  from recheck_mismatch_aborts [OF h1 h2 h3 h4 h5 h6 h7, of "''msg''"] h7
  show ?thesis by simp
qed

section \<open>Which paths have a status when the call returns\<close>

text \<open>
  Claim C4 as stated fails: the result map need not hold a status for every path of the
  file set. Here the branch ref cannot be resolved (the service answers 500); line 79
  returns the map as it was created at line 22, and \<open>a.txt\<close> has no status.
\<close>

theorem unresolved_ref_leaves_path_without_status:
  "fst (upsertMultipleFilesSafe down_client ''o'' ''r'' ''main'' [(''a.txt'', ''hello'')] ''msg'' (fresh 0))
     = Return Map.empty (Some (GetRef_error (ErrorResponse server_error)))
   \<and> status_of (fst (upsertMultipleFilesSafe down_client ''o'' ''r'' ''main'' [(''a.txt'', ''hello'')] ''msg'' (fresh 0)))
        ''a.txt'' = None"
  by (simp add: run_defs scen_defs)

text \<open>
  Claim C4, amended. Whenever the call returns, every key of the result map is a path of the
  file set and its value is one of \<open>created\<close>, \<open>updated\<close>, \<open>skipped\<close>, \<open>error\<close>. Every path
  of the file set has such a status, and exactly one since the map is a function, unless
  the call stopped before or inside the first pass over the files: with a ref-resolution
  error, with a failure to fetch the base commit, or with a failed blob on the bootstrap
  path.
\<close>

theorem outcome_statuses:
  assumes "upsertMultipleFilesSafe cl owner repo branch files commitMessage s0 = (Return res e, s')"
  shows "(\<forall>p v. res p = Some v \<longrightarrow> p \<in> fst ` set files \<and> terminal v)
       \<and> (\<not> early_abort e \<longrightarrow> (\<forall>p \<in> fst ` set files. \<exists>v. terminal v \<and> res p = Some v))"
proof -
  obtain x s1 where gr: "invoke (Call_GetRef owner repo (''refs/heads/'' @ branch))
             (Git_GetRef cl owner repo (''refs/heads/'' @ branch)) s0 = (x, s1)"
    by (metis prod.exhaust)
  show ?thesis
  proof (cases x)
    case (Inl err)
    show ?thesis
    proof (cases "branch_absent err")
      case True
      with assms gr Inl have "bootstrap cl owner repo branch files Map.empty s1 = (Return res e, s')"
        by (simp add: upsertMultipleFilesSafe_def)
      from bootstrap_result [OF this] obtain le es s2 where
        loop: "bootstrap_loop cl owner repo files Map.empty [] s1 = ((le, res, es), s2)"
        and le: "le = None \<longleftrightarrow> \<not> early_abort e" by blast
      have a: "\<forall>p v. res p = Some v \<longrightarrow> p \<in> fst ` set files \<and> terminal v"
        using bootstrap_loop_values [OF loop] by auto
      have b: "\<not> early_abort e \<longrightarrow> (\<forall>p \<in> fst ` set files. \<exists>v. terminal v \<and> res p = Some v)"
      proof (intro impI ballI)
        fix p assume "\<not> early_abort e" and p: "p \<in> fst ` set files"
        with le loop have "bootstrap_loop cl owner repo files Map.empty [] s1 = ((None, res, es), s2)"
          by simp
        from bootstrap_loop_created [OF this, of p] p have "res p = Some ''created''" by simp
        then show "\<exists>v. terminal v \<and> res p = Some v" by (simp add: terminal_def)
      qed
      from a b show ?thesis by simp
    next
      case False
      with assms gr Inl have "res = Map.empty" "e = Some (GetRef_error err)"
        by (simp_all add: upsertMultipleFilesSafe_def)
      then show ?thesis by (simp add: early_abort_def)
    qed
  next
    case (Inr ref)
    with assms gr have "update_path cl owner repo branch files commitMessage ref Map.empty s1 = (Return res e, s')"
      by (simp add: upsertMultipleFilesSafe_def)
    from update_path_result [OF this] show ?thesis
    proof
      assume "early_abort e \<and> res = Map.empty"
      then show ?thesis by simp
    next
      assume "\<not> early_abort e \<and> (\<exists>es s1 s2. update_loop cl owner repo branch files Map.empty [] s1 = ((res, es), s2))"
      then obtain es t1 t2 where
        loop: "update_loop cl owner repo branch files Map.empty [] t1 = ((res, es), t2)" by blast
      from update_loop_result [OF loop] have
        out: "\<forall>q. q \<notin> fst ` set files \<longrightarrow> res q = None" and
        inn: "\<forall>q \<in> fst ` set files. \<exists>v. terminal v \<and> res q = Some v" by simp_all
      have a: "\<forall>p v. res p = Some v \<longrightarrow> p \<in> fst ` set files \<and> terminal v"
      proof (intro allI impI)
        fix p v assume pv: "res p = Some v"
        have mem: "p \<in> fst ` set files"
          using out pv by (cases "p \<in> fst ` set files") auto
        with inn obtain v' where "terminal v'" "res p = Some v'" by blast
        with pv have "terminal v" by simp
        with mem show "p \<in> fst ` set files \<and> terminal v" by simp
      qed
      from a inn show ?thesis by simp
    qed
  qed
qed

theorem outcome_statuses_witness:
  "fst (upsertMultipleFilesSafe hello_client ''o'' ''r'' ''main'' [(''a.txt'', ''hello''), (''b.txt'', ''x'')] ''msg'' (fresh 0))
     = Return [''a.txt'' \<mapsto> ''skipped'', ''b.txt'' \<mapsto> ''created''] None
   \<and> \<not> early_abort None
   \<and> terminal ''skipped'' \<and> terminal ''created''"
proof -
  have r: "fst (upsertMultipleFilesSafe hello_client ''o'' ''r'' ''main'' [(''a.txt'', ''hello''), (''b.txt'', ''x'')] ''msg'' (fresh 0))
     = Return [''a.txt'' \<mapsto> ''skipped'', ''b.txt'' \<mapsto> ''created''] None"
    by (simp add: run_defs scen_defs)
  then have h: "upsertMultipleFilesSafe hello_client ''o'' ''r'' ''main'' [(''a.txt'', ''hello''), (''b.txt'', ''x'')] ''msg'' (fresh 0)
     = (Return [''a.txt'' \<mapsto> ''skipped'', ''b.txt'' \<mapsto> ''created''] None,
        snd (upsertMultipleFilesSafe hello_client ''o'' ''r'' ''main'' [(''a.txt'', ''hello''), (''b.txt'', ''x'')] ''msg'' (fresh 0)))"
    by (metis prod.collapse)
  have e: "\<not> early_abort None" by (simp add: early_abort_def)
  from outcome_statuses [OF h] have
    "\<forall>p v. [''a.txt'' \<mapsto> ''skipped'', ''b.txt'' \<mapsto> ''created''] p = Some v \<longrightarrow> terminal v"
    by blast
  from this [rule_format, of "''a.txt''" "''skipped''"] this [rule_format, of "''b.txt''" "''created''"]
  have "terminal ''skipped''" "terminal ''created''" by simp_all
  with r e show ?thesis by simp
qed

section \<open>Calling twice with the same file set\<close>

text \<open>
  Claim C9. Against the storing remote, for every file set with distinct paths and every
  well-formed state of the branch (absent, or pointing to a commit with a tree): the first
  call of \<^verbatim>\<open>upsertMultipleFilesSafe\<close> returns without error, and a second call with the same
  file set on the state the first one left returns \<open>skipped\<close> for every path, without error,
  issues no tree, commit or ref write, and leaves the remote as it was.
\<close>

theorem upsert_twice_all_skipped:
  assumes "distinct (map fst files)"
      and "branch_consistent w branch"
  shows "\<exists>res1 s1 s2.
           upsertMultipleFilesSafe store_client owner repo branch files commitMessage (fresh w)
             = (Return res1 None, s1)
         \<and> upsertMultipleFilesSafe store_client owner repo branch files commitMessage (fresh (world s1))
             = (Return (all_skipped files) None, s2)
         \<and> filter mutates (calls s2) = []
         \<and> world s2 = world s1"
proof -
  define name where "name = ''refs/heads/'' @ branch"
  note upsert' = upsertMultipleFilesSafe_def [where branch = branch, folded name_def]
  note consistent' = branch_consistent_def [where branch = branch, folded name_def]
  let ?s0 = "\<lparr>world = w, calls = [Call_GetRef owner repo name]\<rparr>"
  have first: "\<exists>res1 s1. upsertMultipleFilesSafe store_client owner repo branch files commitMessage (fresh w)
             = (Return res1 None, s1) \<and> holds (world s1) branch files"
  proof (cases "refs w name")
    case None
    then have g1: "invoke (Call_GetRef owner repo name) (Git_GetRef store_client owner repo name) (fresh w)
                     = (Inl (ErrorResponse not_found), ?s0)"
      by (simp add: invoke_def store_client_def store_GetRef_def fresh_def)
    have ab: "branch_absent (ErrorResponse not_found)"
      by (simp add: branch_absent_def not_found_def)
    have "upsertMultipleFilesSafe store_client owner repo branch files commitMessage (fresh w)
            = bootstrap store_client owner repo branch files Map.empty ?s0"
      unfolding upsert' g1 using ab by simp
    with store_bootstrap [OF None [unfolded name_def] assms(1), of owner repo "[Call_GetRef owner repo name]"]
    show ?thesis by simp
  next
    case (Some h)
    with assms(2) obtain m t0 ps base where
      com: "commits w h = Some (m, t0, ps)" and tre: "trees w t0 = Some base" and t0: "t0 \<noteq> ''''"
      by (auto simp: consistent' split: option.splits)
    from Some have g1: "invoke (Call_GetRef owner repo name) (Git_GetRef store_client owner repo name) (fresh w)
                     = (Inr \<lparr>Ref = Some name, Object = Some \<lparr>object_SHA = Some h\<rparr>\<rparr>, ?s0)"
      by (simp add: invoke_def store_client_def store_GetRef_def fresh_def)
    have "upsertMultipleFilesSafe store_client owner repo branch files commitMessage (fresh w)
            = update_path store_client owner repo branch files commitMessage
                \<lparr>Ref = Some name, Object = Some \<lparr>object_SHA = Some h\<rparr>\<rparr> Map.empty ?s0"
      unfolding upsert' g1 by simp
    with store_update_path [OF Some [unfolded name_def] com tre t0 assms(1), of owner repo commitMessage
        "[Call_GetRef owner repo name]"]
    show ?thesis by (simp add: name_def)
  qed
  then obtain res1 s1 where
    run1: "upsertMultipleFilesSafe store_client owner repo branch files commitMessage (fresh w)
             = (Return res1 None, s1)" and h: "holds (world s1) branch files"
    by blast
  let ?s2 = "\<lparr>world = world s1, calls = [] @ [Call_GetRef owner repo (''refs/heads/'' @ branch),
                  Call_GetCommit owner repo (the (refs (world s1) (''refs/heads/'' @ branch)))]
                  @ map (\<lambda>(p, c). Call_GetContents owner repo p branch) files\<rparr>"
  have run2: "upsertMultipleFilesSafe store_client owner repo branch files commitMessage (fresh (world s1))
             = (Return (all_skipped files) None, ?s2)"
    using store_second_call [OF h, of owner repo commitMessage "[]"] by (simp only: fresh_def)
  have "filter mutates (map (\<lambda>(p, c). Call_GetContents owner repo p branch) files) = []"
    by (induction files) (auto simp: mutates_def)
  then have quiet: "filter mutates (calls ?s2) = []"
    by (simp add: mutates_def)
  from run1 run2 quiet show ?thesis
    by (intro exI [of _ res1] exI [of _ s1] exI [of _ ?s2]) simp
qed

theorem upsert_twice_all_skipped_witness:
  "distinct (map fst [(''a.txt'', ''hello'')])
   \<and> branch_consistent empty_remote ''main''
   \<and> fst (upsertMultipleFilesSafe store_client ''o'' ''r'' ''main'' [(''a.txt'', ''hello'')] ''msg''
        (fresh (world (snd (upsertMultipleFilesSafe store_client ''o'' ''r'' ''main'' [(''a.txt'', ''hello'')] ''msg''
           (fresh empty_remote))))))
       = Return (all_skipped [(''a.txt'', ''hello'')]) None
   \<and> all_skipped [(''a.txt'', ''hello'')] ''a.txt'' = Some ''skipped''"
proof -
  have d: "distinct (map fst [(''a.txt'', ''hello'')])" by simp
  have c: "branch_consistent empty_remote ''main''"
    by (simp add: branch_consistent_def empty_remote_def)
  from upsert_twice_all_skipped [OF d c, of "''o''" "''r''" "''msg''"] obtain res1 s1 s2 where
    r1: "upsertMultipleFilesSafe store_client ''o'' ''r'' ''main'' [(''a.txt'', ''hello'')] ''msg'' (fresh empty_remote)
           = (Return res1 None, s1)"
    and r2: "upsertMultipleFilesSafe store_client ''o'' ''r'' ''main'' [(''a.txt'', ''hello'')] ''msg'' (fresh (world s1))
           = (Return (all_skipped [(''a.txt'', ''hello'')]) None, s2)"
    by blast
  show ?thesis
    unfolding r1 snd_conv r2 fst_conv using d c by (simp add: all_skipped_def)
qed

end
